theory Spec2Isabelle
  imports Main "HOL-Library.Sublist"
begin

section \<open>Python strings and exceptions\<close>

text \<open>
  A Python \<open>str\<close> is a sequence of Unicode code points and \<open>len\<close> counts code points,
  so a string is modelled as a list of code points. \<open>lit\<close> turns an ASCII literal of
  the source into that representation.
\<close>

type_synonym pystr = "nat list"

definition lit :: "string \<Rightarrow> pystr" where
  "lit s = map of_char s"

text \<open>\<open>s.startswith(p)\<close>.\<close>

fun startswith :: "pystr \<Rightarrow> pystr \<Rightarrow> bool" where
  "startswith s [] = True"
| "startswith [] (p # ps) = False"
| "startswith (c # cs) (p # ps) = (c = p \<and> startswith cs ps)"

text \<open>\<open>sub in s\<close>: \<open>sub\<close> occurs in \<open>s\<close> as a contiguous substring.\<close>

fun contains :: "pystr \<Rightarrow> pystr \<Rightarrow> bool" where
  "contains sub [] = (sub = [])"
| "contains sub (c # cs) = (startswith (c # cs) sub \<or> contains sub cs)"

text \<open>
  The code points for which \<open>str.isspace\<close> holds; \<open>str.strip()\<close> without an argument
  removes exactly these from both ends.
\<close>

definition isspace :: "nat \<Rightarrow> bool" where
  "isspace c \<longleftrightarrow>
     (9 \<le> c \<and> c \<le> 13) \<or> (28 \<le> c \<and> c \<le> 32) \<or> c = 133 \<or> c = 160 \<or> c = 5760 \<or>
     (8192 \<le> c \<and> c \<le> 8202) \<or> c = 8232 \<or> c = 8233 \<or> c = 8239 \<or> c = 8287 \<or> c = 12288"

definition strip :: "pystr \<Rightarrow> pystr" where
  "strip s = rev (dropWhile isspace (rev (dropWhile isspace s)))"

text \<open>\<open>str(n)\<close> for a non-negative integer: its decimal digits.\<close>

fun str_nat :: "nat \<Rightarrow> pystr" where
  "str_nat n = (if n < 10 then [48 + n] else str_nat (n div 10) @ [48 + n mod 10])"

declare str_nat.simps [simp del]

text \<open>
  The exceptions the three modules raise or let through. \<open>ClientError\<close> carries the
  service error code (\<open>e.response['Error']['Code']\<close>) and the text \<open>str(e)\<close>;
  \<open>BotoCoreError\<close> stands for the exceptions of the client library that are not a
  \<open>ClientError\<close> (connection and timeout failures), with their text.
\<close>

datatype exn =
    ValueError pystr
  | KeyError pystr
  | IndexError
  | ClientError pystr pystr
  | BotoCoreError pystr

text \<open>
  \<open>repr(s)\<close> of a string. The quote is \<open>"\<close> when the string holds \<open>'\<close> and no
  \<open>"\<close>, and \<open>'\<close> otherwise. The quote and the backslash are escaped with a backslash,
  tab, newline and carriage return are written \<open>\t\<close>, \<open>\n\<close>, \<open>\r\<close>, and the other
  code points that are not printable are written \<open>\xhh\<close> with two lower-case
  hexadecimal digits: those below 32, 127, 128 to 160 and 173. Code points from 256 on
  are copied, as \<open>repr\<close> does for the printable ones.
\<close>

definition hexdigit :: "nat \<Rightarrow> nat" where
  "hexdigit d = (if d < 10 then 48 + d else 87 + d)"

definition repr_char :: "nat \<Rightarrow> nat \<Rightarrow> pystr" where
  "repr_char quote ch =
     (if ch = quote \<or> ch = 92 then [92, ch]
      else if ch = 9 then [92, 116]
      else if ch = 10 then [92, 110]
      else if ch = 13 then [92, 114]
      else if ch < 32 \<or> ch = 127 \<or> (128 \<le> ch \<and> ch \<le> 160) \<or> ch = 173 then
        [92, 120, hexdigit (ch div 16), hexdigit (ch mod 16)]
      else [ch])"

definition py_repr :: "pystr \<Rightarrow> pystr" where
  "py_repr s =
     (let quote = (if 39 \<in> set s \<and> 34 \<notin> set s then 34 else 39)
      in [quote] @ concat (map (repr_char quote) s) @ [quote])"

text \<open>\<open>str(e)\<close>. For a \<open>KeyError\<close> it is the \<open>repr\<close> of the missing key.\<close>

fun str_exn :: "exn \<Rightarrow> pystr" where
  "str_exn (ValueError m) = m"
| "str_exn (KeyError k) = py_repr k"
| "str_exn IndexError = lit ''list index out of range''"
| "str_exn (ClientError code m) = m"
| "str_exn (BotoCoreError m) = m"

section \<open>Dispatch stage: \<open>lambda_trigger/index.py\<close>\<close>

text \<open>
  \<open>validate_s3_key\<close>: the checks in the order of the source (path traversal, null byte,
  length, empty). Logging is not modelled.
\<close>

definition validate_s3_key :: "pystr \<Rightarrow> exn + bool" where
  "validate_s3_key key =
     (if contains (lit ''..'') key \<or> startswith key (lit ''/'') then
        Inl (ValueError (lit ''Invalid key path (path traversal attempt): '' @ key))
      else if contains [0] key then
        Inl (ValueError (lit ''Key contains null bytes: '' @ key))
      else if length key > 1024 then
        Inl (ValueError (lit ''Key too long: '' @ str_nat (length key)
                           @ lit '' characters (max: 1024)''))
      else if key = [] \<or> strip key = [] then
        Inl (ValueError (lit ''Key cannot be empty''))
      else Inr True)"

text \<open>
  One record of the event: \<open>record['s3']['bucket']['name']\<close>,
  \<open>record['s3']['object']['key']\<close> and \<open>record['eventTime']\<close>. The event is the list
  \<open>event['Records']\<close>.
\<close>

record notification =
  s3_bucket_name :: pystr
  s3_object_key :: pystr
  eventTime :: pystr

text \<open>The dictionary \<open>step_function_input\<close> that is serialised and submitted.\<close>

record step_function_input =
  sfi_bucket :: pystr
  sfi_key :: pystr
  sfi_timestamp :: pystr
  sfi_event_time :: pystr

text \<open>
  What the handler reads from outside: the environment variable (absent is \<open>None\<close>,
  and \<open>os.environ[...]\<close> then raises \<open>KeyError\<close>), the orchestrator's answer to
  \<open>start_execution\<close> (an exception or the \<open>executionArn\<close>), and the clock, whose
  \<open>n\<close>-th reading is \<open>utcnow n\<close>.
\<close>

record trigger_env =
  STATE_MACHINE_ARN :: "pystr option"
  start_execution :: "pystr \<Rightarrow> step_function_input \<Rightarrow> exn + pystr"
  utcnow :: "nat \<Rightarrow> pystr"

text \<open>The handler's \<open>body\<close>: with the list of executions, or with a message only.\<close>

datatype trigger_body =
    Triggered pystr "pystr list"
  | Halted pystr

record trigger_response =
  statusCode :: nat
  body :: trigger_body

definition step_function_input_of :: "trigger_env \<Rightarrow> nat \<Rightarrow> notification \<Rightarrow> step_function_input" where
  "step_function_input_of env n r =
     \<lparr>sfi_bucket = s3_bucket_name r, sfi_key = s3_object_key r,
      sfi_timestamp = utcnow env n, sfi_event_time = eventTime r\<rparr>"

text \<open>
  The \<open>for record in event['Records']\<close> loop. The state is \<open>execution_arns\<close> and the
  list of inputs the orchestrator has started so far; an exception leaves the loop with
  what has been started. The clock has been read once for every execution started.
\<close>

fun process_records ::
  "trigger_env \<Rightarrow> notification list \<Rightarrow> pystr list \<Rightarrow> step_function_input list
   \<Rightarrow> (exn + pystr list) \<times> step_function_input list" where
  "process_records env [] execution_arns started = (Inr execution_arns, started)"
| "process_records env (r # rs) execution_arns started =
     (case validate_s3_key (s3_object_key r) of
        Inl e \<Rightarrow> (Inl e, started)
      | Inr _ \<Rightarrow>
          (let inp = step_function_input_of env (length started) r in
           case STATE_MACHINE_ARN env of
             None \<Rightarrow> (Inl (KeyError (lit ''STATE_MACHINE_ARN'')), started)
           | Some arn \<Rightarrow>
               (case start_execution env arn inp of
                  Inl e \<Rightarrow> (Inl e, started)
                | Inr execution_arn \<Rightarrow>
                    process_records env rs (execution_arns @ [execution_arn])
                      (started @ [inp]))))"

text \<open>
  \<open>handler\<close> of the Dispatch stage: the loop inside \<open>try\<close>; \<open>except ValueError\<close>
  returns status 200 with a message, any other exception is raised again. The second
  component is the list of executions started.
\<close>

definition trigger_handler ::
  "trigger_env \<Rightarrow> notification list \<Rightarrow> (exn + trigger_response) \<times> step_function_input list" where
  "trigger_handler env event =
     (case process_records env event [] [] of
        (Inr execution_arns, started) \<Rightarrow>
          (Inr \<lparr>statusCode = 200,
                body = Triggered (lit ''Successfully triggered Step Functions'') execution_arns\<rparr>,
           started)
      | (Inl (ValueError m), started) \<Rightarrow>
          (Inr \<lparr>statusCode = 200,
                body = Halted (lit ''Validation failed, pipeline halted: '' @ m)\<rparr>,
           started)
      | (Inl e, started) \<Rightarrow> (Inl e, started))"

section \<open>Metadata Writer: \<open>lambda_writer/index.py\<close>\<close>

text \<open>
  \<open>validate_filename\<close>: the same four checks, in the Writer's order (empty, length,
  path traversal, null byte) and with the Writer's messages.
\<close>

definition validate_filename :: "pystr \<Rightarrow> exn + bool" where
  "validate_filename filename =
     (if filename = [] \<or> strip filename = [] then
        Inl (ValueError (lit ''Filename cannot be empty''))
      else if length filename > 1024 then
        Inl (ValueError (lit ''Filename too long: '' @ str_nat (length filename)
                           @ lit '' characters (max: 1024)''))
      else if contains (lit ''..'') filename \<or> startswith filename (lit ''/'') then
        Inl (ValueError (lit ''Invalid filename (path traversal attempt): '' @ filename))
      else if contains [0] filename then
        Inl (ValueError (lit ''Filename contains null bytes: '' @ filename))
      else Inr True)"

text \<open>
  The event is a dictionary of strings; a missing key is \<open>None\<close>. The item is the
  dictionary written to the table, whose primary key is the pair
  (\<open>Filename\<close>, \<open>UploadTimestamp\<close>).
\<close>

type_synonym writer_event = "pystr \<rightharpoonup> pystr"

record item =
  Filename :: pystr
  UploadTimestamp :: pystr
  Bucket :: pystr
  EventTime :: pystr

definition item_key :: "item \<Rightarrow> pystr \<times> pystr" where
  "item_key it = (Filename it, UploadTimestamp it)"

text \<open>The table: the items it holds, in the order they were inserted.\<close>

type_synonym ddb_table = "item list"

text \<open>
  Modelled from the spec: the metadata store is an external service, so \<open>put_item\<close>
  with the condition \<open>attribute_not_exists(Filename) AND attribute_not_exists(UploadTimestamp)\<close>
  follows the interface \<open>conditionalPut(record, condition: "no existing item with this key")
  -> success | fails ConditionFailed | fails OtherStoreError\<close>. The condition is
  evaluated on the stored item with the same primary key. \<open>fault\<close> is a failure of the
  store itself on this call, if any; it leaves the table as it was.
\<close>

definition put_item :: "exn option \<Rightarrow> ddb_table \<Rightarrow> item \<Rightarrow> exn + ddb_table" where
  "put_item fault tbl it =
     (case fault of
        Some e \<Rightarrow> Inl e
      | None \<Rightarrow>
          if item_key it \<in> set (map item_key tbl) then
            Inl (ClientError (lit ''ConditionalCheckFailedException'')
                   (lit ''An error occurred (ConditionalCheckFailedException) when calling the PutItem operation: The conditional request failed''))
          else Inr (tbl @ [it]))"

text \<open>The dictionary the handler returns; \<open>bucket\<close> is present in the 200 result only.\<close>

record writer_response =
  w_statusCode :: nat
  w_filename :: pystr
  w_timestamp :: pystr
  w_bucket :: "pystr option"
  w_message :: pystr

text \<open>
  \<open>handler\<close> of the Writer, with the table handle already initialised. \<open>now\<close> is the
  clock reading that \<open>event.get('timestamp', ...)\<close> defaults to. Every \<open>except\<close> clause
  of the outer \<open>try\<close> raises the exception again; the inner one turns the conditional
  check failure into the 409 result.
\<close>

definition writer_handler ::
  "pystr \<Rightarrow> exn option \<Rightarrow> ddb_table \<Rightarrow> writer_event \<Rightarrow> (exn + writer_response) \<times> ddb_table" where
  "writer_handler now fault tbl event =
     (case event (lit ''key'') of
        None \<Rightarrow> (Inl (KeyError (lit ''key'')), tbl)
      | Some filename \<Rightarrow>
          (let timestamp = (case event (lit ''timestamp'') of None \<Rightarrow> now | Some t \<Rightarrow> t) in
           case event (lit ''bucket'') of
             None \<Rightarrow> (Inl (KeyError (lit ''bucket'')), tbl)
           | Some bucket \<Rightarrow>
               (let event_time =
                      (case event (lit ''event_time'') of None \<Rightarrow> timestamp | Some t \<Rightarrow> t) in
                case validate_filename filename of
                  Inl e \<Rightarrow> (Inl e, tbl)
                | Inr _ \<Rightarrow>
                    (let it = \<lparr>Filename = filename, UploadTimestamp = timestamp,
                                Bucket = bucket, EventTime = event_time\<rparr> in
                     case put_item fault tbl it of
                       Inr tbl' \<Rightarrow>
                         (Inr \<lparr>w_statusCode = 200, w_filename = filename,
                               w_timestamp = timestamp, w_bucket = Some bucket,
                               w_message = lit ''Successfully written to DynamoDB''\<rparr>,
                          tbl')
                     | Inl (ClientError code m) \<Rightarrow>
                         if code = lit ''ConditionalCheckFailedException'' then
                           (Inr \<lparr>w_statusCode = 409, w_filename = filename,
                                 w_timestamp = timestamp, w_bucket = None,
                                 w_message = lit ''Duplicate entry - item already exists''\<rparr>,
                            tbl)
                         else (Inl (ClientError code m), tbl)
                     | Inl e \<Rightarrow> (Inl e, tbl)))))"

text \<open>
  A sequence of Writer invocations against the same table: each call has its own clock
  reading, store fault and event. The results are returned in call order.
\<close>

fun run_writer ::
  "ddb_table \<Rightarrow> (pystr \<times> exn option \<times> writer_event) list
   \<Rightarrow> (exn + writer_response) list \<times> ddb_table" where
  "run_writer tbl [] = ([], tbl)"
| "run_writer tbl ((now, fault, event) # calls) =
     (case writer_handler now fault tbl event of
        (res, tbl') \<Rightarrow>
          (case run_writer tbl' calls of (rs, tbl'') \<Rightarrow> (res # rs, tbl'')))"

text \<open>The result is \<open>Written\<close> (status 200) for the key (\<open>f\<close>, \<open>t\<close>).\<close>

definition written_for :: "pystr \<Rightarrow> pystr \<Rightarrow> exn + writer_response \<Rightarrow> bool" where
  "written_for f t res =
     (case res of
        Inl e \<Rightarrow> False
      | Inr r \<Rightarrow> w_statusCode r = 200 \<and> w_filename r = f \<and> w_timestamp r = t)"

section \<open>Compliance Scanner: \<open>lambda_security_monitor/index.py\<close>\<close>

text \<open>One entry of \<open>s3_issues\<close>: the dictionary with \<open>name\<close> and \<open>reason\<close>.\<close>

record issue =
  name :: pystr
  reason :: pystr

text \<open>
  What the scanner reads from outside.
  \<^item> \<open>list_buckets\<close>: an exception, or the names of \<open>response.get('Buckets', [])\<close>.
  \<^item> \<open>get_bucket_encryption\<close>: an exception, or the list
    \<open>['ServerSideEncryptionConfiguration']['Rules']\<close>; a rule is the \<open>SSEAlgorithm\<close> of
    its \<open>ApplyServerSideEncryptionByDefault\<close>, or \<open>None\<close> when the rule has no such
    entry.
  \<^item> \<open>list_tables\<close>: an exception, or \<open>response.get('TableNames', [])\<close>.
  \<^item> \<open>describe_table\<close>: an exception, or \<open>table_desc['Table'].get('SSEDescription')\<close>,
    a dictionary or \<open>None\<close>.
  \<^item> \<open>SNS_TOPIC_ARN\<close>: the environment variable, \<open>None\<close> when unset.
  \<^item> \<open>publish\<close>: the channel's answer to the \<open>n\<close>-th call of \<open>sns.publish\<close> with
    topic, subject and message: an exception or the \<open>MessageId\<close>.
\<close>

record monitor_env =
  list_buckets :: "exn + pystr list"
  get_bucket_encryption :: "pystr \<Rightarrow> exn + pystr option list"
  list_tables :: "exn + pystr list"
  describe_table :: "pystr \<Rightarrow> exn + (pystr \<times> pystr) list option"
  SNS_TOPIC_ARN :: "pystr option"
  publish :: "nat \<Rightarrow> pystr \<Rightarrow> pystr \<Rightarrow> pystr \<Rightarrow> exn + pystr"

text \<open>
  The \<open>for bucket in buckets\<close> loop of \<open>check_s3_encryption\<close>, with the accumulator
  \<open>s3_issues\<close> and the records written with \<open>logger.error\<close> so far. The inner
  \<open>except ClientError\<close> catches a \<open>ClientError\<close> only; \<open>rules[0]\<close> on an empty list
  (\<open>IndexError\<close>), a rule without \<open>ApplyServerSideEncryptionByDefault\<close> (\<open>KeyError\<close>)
  and every other exception leave the loop.
\<close>

fun check_buckets ::
  "monitor_env \<Rightarrow> pystr list \<Rightarrow> issue list \<Rightarrow> pystr list \<Rightarrow> (exn + issue list) \<times> pystr list" where
  "check_buckets env [] s3_issues log = (Inr s3_issues, log)"
| "check_buckets env (bucket_name # buckets) s3_issues log =
     (case get_bucket_encryption env bucket_name of
        Inr rules \<Rightarrow>
          (case rules of
             [] \<Rightarrow> (Inl IndexError, log)
           | rule # _ \<Rightarrow>
               (case rule of
                  None \<Rightarrow> (Inl (KeyError (lit ''ApplyServerSideEncryptionByDefault'')), log)
                | Some algorithm \<Rightarrow>
                    if algorithm \<noteq> lit ''aws:kms'' then
                      check_buckets env buckets
                        (s3_issues @
                           [\<lparr>name = bucket_name,
                             reason = lit ''is not encrypted with a KMS key (uses default ''
                                        @ algorithm @ lit '' encryption).''\<rparr>])
                        log
                    else check_buckets env buckets s3_issues log))
      | Inl (ClientError error_code m) \<Rightarrow>
          if error_code = lit ''ServerSideEncryptionConfigurationNotFoundError'' then
            check_buckets env buckets
              (s3_issues @
                 [\<lparr>name = bucket_name, reason = lit ''has no encryption configuration at all.''\<rparr>])
              log
          else
            check_buckets env buckets s3_issues
              (log @ [lit ''Error checking bucket '' @ [39] @ bucket_name @ [39] @ lit '': '' @ m])
      | Inl e \<Rightarrow> (Inl e, log))"

text \<open>
  \<open>check_s3_encryption\<close>: the outer \<open>try\<close> logs what reaches it and raises it again,
  with one text for a \<open>ClientError\<close> and another for any other exception.
\<close>

definition reraise_logged :: "pystr \<Rightarrow> pystr \<Rightarrow> exn \<Rightarrow> pystr" where
  "reraise_logged client_text other_text e =
     (case e of
        ClientError code m \<Rightarrow> client_text @ m
      | _ \<Rightarrow> other_text @ str_exn e)"

definition check_s3_encryption :: "monitor_env \<Rightarrow> pystr list \<Rightarrow> (exn + issue list) \<times> pystr list" where
  "check_s3_encryption env log =
     (case list_buckets env of
        Inl e \<Rightarrow>
          (Inl e, log @ [reraise_logged (lit ''Error listing S3 buckets: '')
                           (lit ''Unexpected error checking S3 encryption: '') e])
      | Inr buckets \<Rightarrow>
          (case check_buckets env buckets [] log of
             (Inl e, log') \<Rightarrow>
               (Inl e, log' @ [reraise_logged (lit ''Error listing S3 buckets: '')
                                 (lit ''Unexpected error checking S3 encryption: '') e])
           | (Inr s3_issues, log') \<Rightarrow> (Inr s3_issues, log')))"

text \<open>
  The \<open>for table_name in table_names\<close> loop of \<open>check_dynamodb_encryption\<close>.
  \<open>not sse_desc\<close> holds for \<open>None\<close> and for the empty dictionary.
\<close>

fun check_tables ::
  "monitor_env \<Rightarrow> pystr list \<Rightarrow> pystr list \<Rightarrow> pystr list \<Rightarrow> (exn + pystr list) \<times> pystr list" where
  "check_tables env [] unencrypted_tables log = (Inr unencrypted_tables, log)"
| "check_tables env (table_name # table_names) unencrypted_tables log =
     (case describe_table env table_name of
        Inr sse_desc \<Rightarrow>
          if (case sse_desc of
                None \<Rightarrow> True
              | Some d \<Rightarrow> d = [] \<or> map_of d (lit ''Status'') \<noteq> Some (lit ''ENABLED''))
          then check_tables env table_names (unencrypted_tables @ [table_name]) log
          else check_tables env table_names unencrypted_tables log
      | Inl (ClientError error_code m) \<Rightarrow>
          check_tables env table_names unencrypted_tables
            (log @ [lit ''Error checking table '' @ [39] @ table_name @ [39] @ lit '': '' @ m])
      | Inl e \<Rightarrow> (Inl e, log))"

definition check_dynamodb_encryption ::
  "monitor_env \<Rightarrow> pystr list \<Rightarrow> (exn + pystr list) \<times> pystr list" where
  "check_dynamodb_encryption env log =
     (case list_tables env of
        Inl e \<Rightarrow>
          (Inl e, log @ [reraise_logged (lit ''Error listing DynamoDB tables: '')
                           (lit ''Unexpected error checking DynamoDB encryption: '') e])
      | Inr table_names \<Rightarrow>
          (case check_tables env table_names [] log of
             (Inl e, log') \<Rightarrow>
               (Inl e, log' @ [reraise_logged (lit ''Error listing DynamoDB tables: '')
                                 (lit ''Unexpected error checking DynamoDB encryption: '') e])
           | (Inr unencrypted_tables, log') \<Rightarrow> (Inr unencrypted_tables, log')))"

text \<open>\<open>sep.join(xs)\<close>.\<close>

fun join :: "pystr \<Rightarrow> pystr list \<Rightarrow> pystr" where
  "join sep [] = []"
| "join sep [x] = x"
| "join sep (x # y # ys) = x @ sep @ join sep (y # ys)"

text \<open>
  The state the handler changes: the records written with \<open>logger.error\<close> and the
  calls of \<open>sns.publish\<close> made (topic, subject, message), both in order.
\<close>

record monitor_state =
  error_log :: "pystr list"
  sns_calls :: "(pystr \<times> pystr \<times> pystr) list"

definition alert_subject :: pystr where
  "alert_subject = lit ''Audit Complete: Resources Need KMS Encryption Review''"

definition message_intro :: pystr where
  "message_intro =
     lit ''Hi team,'' @ [10, 10]
     @ lit ''Our automated security auditor just finished its daily scan and found a few resources that don't seem to be using our preferred KMS encryption. Don't panic! Most of these are probably just using default AWS encryption, but our policy is to use KMS for everything.''
     @ [10, 10] @ lit ''Here's a breakdown of what it found:'' @ [10, 10]"

definition message_footer :: pystr where
  "message_footer =
     [10, 10]
     @ lit ''Please take a look at these when you get a chance so we can stay compliant. If these are low-priority or dev resources, no rush.''
     @ [10, 10] @ lit ''Thanks!'' @ [10, 10] @ lit ''- Your Friendly Security Bot''"

text \<open>\<open>full_message\<close> of \<open>send_alert\<close>: every issue on a line of its own after a bullet
  (U+2022) and a space.\<close>

definition full_message :: "pystr list \<Rightarrow> pystr" where
  "full_message issues_list =
     message_intro @ join [10] (map (\<lambda>issue. [8226, 32] @ issue) issues_list) @ message_footer"

text \<open>
  \<open>send_alert\<close>: \<open>os.environ['SNS_TOPIC_ARN']\<close> is read while the arguments are built,
  before the call; the call is then made whatever its outcome.
\<close>

definition send_alert :: "monitor_env \<Rightarrow> pystr list \<Rightarrow> monitor_state \<Rightarrow> (exn + unit) \<times> monitor_state" where
  "send_alert env issues_list st =
     (case SNS_TOPIC_ARN env of
        None \<Rightarrow> (Inl (KeyError (lit ''SNS_TOPIC_ARN'')), st)
      | Some topic \<Rightarrow>
          (let st' = st\<lparr>sns_calls := sns_calls st
                         @ [(topic, alert_subject, full_message issues_list)]\<rparr> in
           case publish env (length (sns_calls st)) topic alert_subject
                  (full_message issues_list) of
             Inl e \<Rightarrow> (Inl e, st')
           | Inr message_id \<Rightarrow> (Inr (), st')))"

text \<open>The dictionary the handler returns, \<open>body\<close> with its \<open>message\<close> and \<open>issues\<close>.\<close>

record monitor_response =
  m_statusCode :: nat
  issues_found :: nat
  m_message :: pystr
  m_issues :: "pystr list"

text \<open>
  \<open>all_issues\<close> after the two loops of the handler that format the results: a string
  for every bucket issue, then a string for every table.
\<close>

definition format_issues :: "issue list \<Rightarrow> pystr list \<Rightarrow> pystr list" where
  "format_issues s3_results dynamo_results =
     map (\<lambda>issue. lit ''S3 Bucket '' @ [39] @ name issue @ [39] @ lit '' '' @ reason issue)
       s3_results
     @ map (\<lambda>table_name. lit ''DynamoDB Table '' @ [39] @ table_name @ [39]
                           @ lit '' is not encrypted.'')
         dynamo_results"

text \<open>The \<open>try\<close> block of \<open>handler\<close>.\<close>

definition handler_try :: "monitor_env \<Rightarrow> (exn + monitor_response) \<times> monitor_state" where
  "handler_try env =
     (case check_s3_encryption env [] of
        (Inl e, log1) \<Rightarrow> (Inl e, \<lparr>error_log = log1, sns_calls = []\<rparr>)
      | (Inr s3_results, log1) \<Rightarrow>
          (case check_dynamodb_encryption env log1 of
             (Inl e, log2) \<Rightarrow> (Inl e, \<lparr>error_log = log2, sns_calls = []\<rparr>)
           | (Inr dynamo_results, log2) \<Rightarrow>
               (let all_issues = format_issues s3_results dynamo_results;
                    st = \<lparr>error_log = log2, sns_calls = []\<rparr>;
                    response = \<lparr>m_statusCode = 200, issues_found = length all_issues,
                                 m_message = lit ''Security scan completed'',
                                 m_issues = all_issues\<rparr> in
                if all_issues \<noteq> [] then
                  (case send_alert env all_issues st of
                     (Inl e, st') \<Rightarrow> (Inl e, st')
                   | (Inr _, st') \<Rightarrow> (Inr response, st'))
                else (Inr response, st))))"

definition failed_subject :: pystr where
  "failed_subject = [9888, 65039, 32] @ lit ''Security Scan FAILED''"

definition failed_message :: "exn \<Rightarrow> pystr" where
  "failed_message e =
     lit ''The scheduled security scan encountered a critical error and could not complete:''
     @ [10, 10] @ str_exn e"

text \<open>
  \<open>handler\<close> of the scanner. In the \<open>except Exception\<close> branch the failure is logged and
  a second \<open>sns.publish\<close> is tried inside \<open>try ... except: pass\<close>: its outcome, and the
  \<open>KeyError\<close> of an unset topic, are dropped, and the exception caught first is raised
  again.
\<close>

definition monitor_handler :: "monitor_env \<Rightarrow> (exn + monitor_response) \<times> monitor_state" where
  "monitor_handler env =
     (case handler_try env of
        (Inr response, st) \<Rightarrow> (Inr response, st)
      | (Inl e, st) \<Rightarrow>
          (let st1 = st\<lparr>error_log := error_log st @ [lit ''Security scan failed: '' @ str_exn e]\<rparr> in
           case SNS_TOPIC_ARN env of
             None \<Rightarrow> (Inl e, st1)
           | Some topic \<Rightarrow>
               (let st2 = st1\<lparr>sns_calls := sns_calls st1
                                @ [(topic, failed_subject, failed_message e)]\<rparr> in
                case publish env (length (sns_calls st1)) topic failed_subject
                       (failed_message e) of
                  Inl e' \<Rightarrow> (Inl e, st2)
                | Inr message_id \<Rightarrow> (Inl e, st2))))"

text \<open>
  Two abbreviating definitions for the proofs: what one pass of the bucket loop appends
  to \<open>s3_issues\<close> for a bucket when it does not leave the loop, and the condition
  under which the table loop appends a table.
\<close>

definition bucket_issues :: "monitor_env \<Rightarrow> pystr \<Rightarrow> issue list" where
  "bucket_issues env b =
     (case get_bucket_encryption env b of
        Inr (Some algorithm # _) \<Rightarrow>
          if algorithm \<noteq> lit ''aws:kms'' then
            [\<lparr>name = b,
              reason = lit ''is not encrypted with a KMS key (uses default ''
                         @ algorithm @ lit '' encryption).''\<rparr>]
          else []
      | Inl (ClientError error_code m) \<Rightarrow>
          if error_code = lit ''ServerSideEncryptionConfigurationNotFoundError'' then
            [\<lparr>name = b, reason = lit ''has no encryption configuration at all.''\<rparr>]
          else []
      | _ \<Rightarrow> [])"

definition table_flagged :: "monitor_env \<Rightarrow> pystr \<Rightarrow> bool" where
  "table_flagged env t =
     (case describe_table env t of
        Inr None \<Rightarrow> True
      | Inr (Some d) \<Rightarrow> d = [] \<or> map_of d (lit ''Status'') \<noteq> Some (lit ''ENABLED'')
      | Inl e \<Rightarrow> False)"

section \<open>Concrete inputs\<close>

text \<open>
  A Dispatch environment whose orchestrator accepts every submission, and the two
  notifications of the spec's end-to-end scenario.
\<close>

definition example_trigger_env :: trigger_env where
  "example_trigger_env =
     \<lparr>STATE_MACHINE_ARN = Some (lit ''arn:aws:states:eu-central-1:123456789012:stateMachine:test''),
      start_execution = (\<lambda>arn inp. Inr (lit ''execution:'' @ sfi_key inp)),
      utcnow = (\<lambda>n. lit ''2025-01-02T00:00:00+00:00'')\<rparr>"

definition valid_notification :: notification where
  "valid_notification =
     \<lparr>s3_bucket_name = lit ''uploads'', s3_object_key = lit ''reports/q1.csv'',
      eventTime = lit ''2025-01-01T00:00:00Z''\<rparr>"

definition invalid_notification :: notification where
  "invalid_notification =
     \<lparr>s3_bucket_name = lit ''uploads'', s3_object_key = lit ''../../../etc/passwd'',
      eventTime = lit ''2025-01-01T00:00:00Z''\<rparr>"

text \<open>Writer events: the spec's scenario, a retry of it from another bucket, and an
  event whose key is a path traversal.\<close>

definition example_event :: writer_event where
  "example_event =
     [lit ''key'' \<mapsto> lit ''reports/q1.csv'', lit ''bucket'' \<mapsto> lit ''uploads'',
      lit ''timestamp'' \<mapsto> lit ''2025-01-01T00:00:00'']"

definition example_retry_event :: writer_event where
  "example_retry_event =
     [lit ''key'' \<mapsto> lit ''reports/q1.csv'', lit ''bucket'' \<mapsto> lit ''uploads-replica'',
      lit ''timestamp'' \<mapsto> lit ''2025-01-01T00:00:00'',
      lit ''event_time'' \<mapsto> lit ''2025-01-01T00:00:00Z'']"

definition traversal_event :: writer_event where
  "traversal_event =
     [lit ''key'' \<mapsto> lit ''../../../etc/passwd'', lit ''bucket'' \<mapsto> lit ''uploads'']"

definition keyless_event :: writer_event where
  "keyless_event = [lit ''bucket'' \<mapsto> lit ''uploads'']"

text \<open>
  Scanner environments. In the first, the bucket \<open>logs\<close> uses \<open>aws:kms\<close>, the bucket
  \<open>data\<close> uses \<open>AES256\<close>, the table \<open>metadata\<close> has no \<open>SSEDescription\<close> and the
  channel accepts every message. In the second, inspecting \<open>logs\<close> fails with a
  connection timeout, which is not a \<open>ClientError\<close>; in the third it fails with an
  access-denied \<open>ClientError\<close>.
\<close>

definition example_monitor_env :: monitor_env where
  "example_monitor_env =
     \<lparr>list_buckets = Inr [lit ''logs'', lit ''data''],
      get_bucket_encryption =
        (\<lambda>b. if b = lit ''data'' then Inr [Some (lit ''AES256'')]
              else Inr [Some (lit ''aws:kms'')]),
      list_tables = Inr [lit ''metadata''],
      describe_table = (\<lambda>t. Inr None),
      SNS_TOPIC_ARN = Some (lit ''arn:aws:sns:eu-central-1:123456789012:test''),
      publish = (\<lambda>n topic subject message. Inr (lit ''12345''))\<rparr>"

definition timeout_monitor_env :: monitor_env where
  "timeout_monitor_env =
     example_monitor_env
       \<lparr>get_bucket_encryption :=
          (\<lambda>b. if b = lit ''data'' then Inr [Some (lit ''AES256'')]
                else Inl (BotoCoreError (lit ''Connect timeout on endpoint URL'')))\<rparr>"

definition denied_monitor_env :: monitor_env where
  "denied_monitor_env =
     example_monitor_env
       \<lparr>get_bucket_encryption :=
          (\<lambda>b. if b = lit ''data'' then Inr [Some (lit ''AES256'')]
                else Inl (ClientError (lit ''AccessDenied'') (lit ''Access Denied'')))\<rparr>"

text \<open>A scanner environment in which the buckets cannot be listed and the channel
  refuses every message.\<close>

definition unreachable_monitor_env :: monitor_env where
  "unreachable_monitor_env =
     example_monitor_env
       \<lparr>list_buckets := Inl (ClientError (lit ''AccessDenied'') (lit ''Access Denied'')),
        publish := (\<lambda>n topic subject message.
                      Inl (BotoCoreError (lit ''Connect timeout on endpoint URL'')))\<rparr>"

section \<open>Properties of the string operations\<close>

lemma startswith_iff: "startswith s p \<longleftrightarrow> (\<exists>r. s = p @ r)"
  by (induction s p rule: startswith.induct) auto

lemma contains_iff: "contains sub s \<longleftrightarrow> (\<exists>p r. s = p @ sub @ r)"
proof (induction s)
  case Nil
  then show ?case by auto
next
  case (Cons c cs)
  show ?case
  proof
    assume "contains sub (c # cs)"
    then consider "startswith (c # cs) sub" | "contains sub cs" by auto
    then show "\<exists>p r. c # cs = p @ sub @ r"
    proof cases
      case 1
      then obtain r where "c # cs = sub @ r" by (auto simp: startswith_iff)
      then have "c # cs = [] @ sub @ r" by simp
      then show ?thesis by blast
    next
      case 2
      then obtain p r where "cs = p @ sub @ r" using Cons.IH by auto
      then have "c # cs = (c # p) @ sub @ r" by simp
      then show ?thesis by blast
    qed
  next
    assume "\<exists>p r. c # cs = p @ sub @ r"
    then obtain p r where pr: "c # cs = p @ sub @ r" by auto
    show "contains sub (c # cs)"
    proof (cases p)
      case Nil
      then have "startswith (c # cs) sub" using pr by (auto simp: startswith_iff)
      then show ?thesis by simp
    next
      case (Cons a p')
      then have "cs = p' @ sub @ r" using pr by simp
      then have "contains sub cs" using Cons.IH by blast
      then show ?thesis by simp
    qed
  qed
qed

lemma contains_single: "contains [c] s \<longleftrightarrow> c \<in> set s"
  by (induction s) auto

lemma startswith_slash: "startswith s (lit ''/'') \<longleftrightarrow> (\<exists>r. s = 47 # r)"
  by (simp add: startswith_iff lit_def)

lemma strip_empty_iff: "strip s = [] \<longleftrightarrow> (\<forall>c \<in> set s. isspace c)"
proof
  assume "strip s = []"
  then have "dropWhile isspace (rev (dropWhile isspace s)) = []"
    by (simp add: strip_def)
  then have "\<forall>c \<in> set (dropWhile isspace s). isspace c"
    by (auto simp: dropWhile_eq_Nil_conv)
  moreover have "\<forall>c \<in> set (takeWhile isspace s). isspace c"
    by (auto dest: set_takeWhileD)
  moreover have "set s = set (takeWhile isspace s) \<union> set (dropWhile isspace s)"
    by (metis set_append takeWhile_dropWhile_id)
  ultimately show "\<forall>c \<in> set s. isspace c" by auto
next
  assume "\<forall>c \<in> set s. isspace c"
  then have d: "dropWhile isspace s = []" by simp
  show "strip s = []" unfolding strip_def d by simp
qed

text \<open>The set of strings each validator rejects, as a predicate.\<close>

lemma validate_s3_key_rejects:
  "isl (validate_s3_key key) \<longleftrightarrow>
     contains (lit ''..'') key \<or> startswith key (lit ''/'') \<or> contains [0] key \<or>
     length key > 1024 \<or> key = [] \<or> strip key = []"
  by (simp add: validate_s3_key_def)

lemma validate_filename_rejects:
  "isl (validate_filename key) \<longleftrightarrow>
     contains (lit ''..'') key \<or> startswith key (lit ''/'') \<or> contains [0] key \<or>
     length key > 1024 \<or> key = [] \<or> strip key = []"
  by (auto simp add: validate_filename_def)

section \<open>Claims about the validators\<close>

text \<open>
  C3. The key validator rejects an identifier if and only if it is empty or consists of
  whitespace only, or is longer than 1024 characters, or contains the substring \<open>..\<close>,
  or begins with \<open>/\<close>, or contains a null character; every other string is accepted
  (the call returns \<open>True\<close>). The validator is a function of its argument alone.
\<close>

theorem validate_s3_key_spec:
  "(isl (validate_s3_key key) \<longleftrightarrow>
      (key = [] \<or> (\<forall>c \<in> set key. isspace c)) \<or> length key > 1024 \<or>
      (\<exists>p r. key = p @ lit ''..'' @ r) \<or> (\<exists>r. key = 47 # r) \<or> 0 \<in> set key)
   \<and> (\<not> isl (validate_s3_key key) \<longrightarrow> validate_s3_key key = Inr True)"
proof -
  have acc: "validate_s3_key key = Inr True" if "\<not> isl (validate_s3_key key)"
    using that by (auto simp: validate_s3_key_def split: if_splits)
  have nul: "contains [0] key \<longleftrightarrow> 0 \<in> set key"
    by (rule contains_single)
  have dots: "contains (lit ''..'') key \<longleftrightarrow> (\<exists>p r. key = p @ lit ''..'' @ r)"
    by (rule contains_iff)
  have rej: "isl (validate_s3_key key) \<longleftrightarrow>
      (key = [] \<or> (\<forall>c \<in> set key. isspace c)) \<or> length key > 1024 \<or>
      (\<exists>p r. key = p @ lit ''..'' @ r) \<or> (\<exists>r. key = 47 # r) \<or> 0 \<in> set key"
    unfolding validate_s3_key_rejects nul dots startswith_slash strip_empty_iff
    by blast
  show ?thesis using rej acc by blast
qed

theorem validate_s3_key_spec_witness:
  "validate_s3_key (lit ''reports/q1.csv'') = Inr True
   \<and> \<not> (\<exists>p r. lit ''reports/q1.csv'' = p @ lit ''..'' @ r)
   \<and> isl (validate_s3_key (lit ''../../../etc/passwd''))"
proof -
  have a: "validate_s3_key (lit ''reports/q1.csv'') = Inr True"
    by (simp add: validate_s3_key_def lit_def strip_def isspace_def)
  have "lit ''../../../etc/passwd'' = [] @ lit ''..'' @ lit ''/../../etc/passwd''"
    by (simp add: lit_def)
  then have b: "\<exists>p r. lit ''../../../etc/passwd'' = p @ lit ''..'' @ r" by blast
  show ?thesis
    using a b validate_s3_key_spec [of "lit ''reports/q1.csv''"]
      validate_s3_key_spec [of "lit ''../../../etc/passwd''"]
    by simp
qed

text \<open>
  C6. The Dispatch stage's key validator and the Writer's filename validator reject
  exactly the same strings, and both return \<open>True\<close> on every string they accept.
\<close>

theorem validators_agree:
  "(isl (validate_s3_key s) \<longleftrightarrow> isl (validate_filename s))
   \<and> (validate_s3_key s = Inr True \<longleftrightarrow> validate_filename s = Inr True)"
proof -
  have r: "isl (validate_s3_key s) \<longleftrightarrow> isl (validate_filename s)"
    by (simp only: validate_s3_key_rejects validate_filename_rejects)
  have k: "validate_s3_key s = Inr True \<longleftrightarrow> \<not> isl (validate_s3_key s)"
    by (auto simp: validate_s3_key_def)
  have f: "validate_filename s = Inr True \<longleftrightarrow> \<not> isl (validate_filename s)"
    by (auto simp: validate_filename_def)
  show ?thesis using r k f by simp
qed

theorem validators_agree_witness:
  "isl (validate_filename (lit ''../../../etc/passwd''))
   \<and> validate_filename (lit ''folder/valid-file.txt'') = Inr True"
proof -
  have a: "isl (validate_s3_key (lit ''../../../etc/passwd''))"
    by (simp add: validate_s3_key_def lit_def)
  have b: "validate_s3_key (lit ''folder/valid-file.txt'') = Inr True"
    by (simp add: validate_s3_key_def lit_def strip_def isspace_def)
  show ?thesis
    using a b validators_agree [of "lit ''../../../etc/passwd''"]
      validators_agree [of "lit ''folder/valid-file.txt''"]
    by simp
qed

section \<open>Claims about the Dispatch stage\<close>

lemma validate_s3_key_cases:
  "validate_s3_key k = Inr True \<or> (\<exists>m. validate_s3_key k = Inl (ValueError m))"
  by (simp add: validate_s3_key_def)

text \<open>The inputs submitted for a run of valid notifications, the clock at \<open>n\<close>.\<close>

lemma process_records_valid_prefix:
  assumes "STATE_MACHINE_ARN env = Some arn"
    and "\<forall>inp. \<exists>a. start_execution env arn inp = Inr a"
    and "\<forall>r \<in> set pre. validate_s3_key (s3_object_key r) = Inr True"
  shows "process_records env (pre @ rest) arns started =
         process_records env rest
           (arns @ map (\<lambda>(i, r). projr (start_execution env arn (step_function_input_of env i r)))
                     (enumerate (length started) pre))
           (started @ map (\<lambda>(i, r). step_function_input_of env i r)
                     (enumerate (length started) pre))"
  using assms(3)
proof (induction pre arbitrary: arns started)
  case Nil
  then show ?case by simp
next
  case (Cons r pre)
  let ?inp = "step_function_input_of env (length started) r"
  obtain a where a: "start_execution env arn ?inp = Inr a"
    using assms(2) by blast
  have v: "validate_s3_key (s3_object_key r) = Inr True"
    using Cons.prems by simp
  have step: "process_records env ((r # pre) @ rest) arns started =
              process_records env (pre @ rest) (arns @ [a]) (started @ [?inp])"
    by (simp add: v a assms(1))
  have "\<forall>r \<in> set pre. validate_s3_key (s3_object_key r) = Inr True"
    using Cons.prems by simp
  from Cons.IH [OF this, of "arns @ [a]" "started @ [?inp]"]
  show ?case unfolding step by (simp add: a)
qed

text \<open>
  C1, as the code has it. With the state machine configured and the orchestrator
  accepting every submission: the handler stops at the first notification whose key
  fails validation. The notifications before it have each started one execution, that
  notification and those after it start none, and the result is status 200 with the
  message \<open>Validation failed, pipeline halted: ...\<close> and no list of executions. A batch
  without an invalid key yields status 200 listing one execution per notification.
\<close>

theorem trigger_handler_halts_at_first_invalid:
  assumes "STATE_MACHINE_ARN env = Some arn"
    and "\<forall>inp. \<exists>a. start_execution env arn inp = Inr a"
    and "\<forall>r \<in> set pre. validate_s3_key (s3_object_key r) = Inr True"
  shows "(validate_s3_key (s3_object_key bad) = Inl e \<longrightarrow>
            trigger_handler env (pre @ bad # post) =
              (Inr \<lparr>statusCode = 200,
                    body = Halted (lit ''Validation failed, pipeline halted: '' @ str_exn e)\<rparr>,
               map (\<lambda>(i, r). step_function_input_of env i r) (enumerate 0 pre)))
       \<and> trigger_handler env pre =
              (Inr \<lparr>statusCode = 200,
                    body = Triggered (lit ''Successfully triggered Step Functions'')
                      (map (\<lambda>(i, r). projr (start_execution env arn (step_function_input_of env i r)))
                         (enumerate 0 pre))\<rparr>,
               map (\<lambda>(i, r). step_function_input_of env i r) (enumerate 0 pre))"
proof -
  have run: "process_records env (pre @ rest) [] [] =
             process_records env rest
               (map (\<lambda>(i, r). projr (start_execution env arn (step_function_input_of env i r)))
                  (enumerate 0 pre))
               (map (\<lambda>(i, r). step_function_input_of env i r) (enumerate 0 pre))" for rest
    using process_records_valid_prefix [OF assms, of rest "[]" "[]"] by simp
  have halt: "trigger_handler env (pre @ bad # post) =
              (Inr \<lparr>statusCode = 200,
                    body = Halted (lit ''Validation failed, pipeline halted: '' @ str_exn e)\<rparr>,
               map (\<lambda>(i, r). step_function_input_of env i r) (enumerate 0 pre))"
    if bad: "validate_s3_key (s3_object_key bad) = Inl e"
  proof -
    obtain m where m: "e = ValueError m"
      using bad validate_s3_key_cases [of "s3_object_key bad"] by auto
    show ?thesis
      unfolding trigger_handler_def run [of "bad # post"]
      using bad by (simp add: m)
  qed
  have ok: "trigger_handler env pre =
              (Inr \<lparr>statusCode = 200,
                    body = Triggered (lit ''Successfully triggered Step Functions'')
                      (map (\<lambda>(i, r). projr (start_execution env arn (step_function_input_of env i r)))
                         (enumerate 0 pre))\<rparr>,
               map (\<lambda>(i, r). step_function_input_of env i r) (enumerate 0 pre))"
    unfolding trigger_handler_def using run [of "[]"] by simp
  show ?thesis using halt ok by blast
qed

lemma valid_notification_ok: "validate_s3_key (s3_object_key valid_notification) = Inr True"
  by (simp add: valid_notification_def validate_s3_key_def lit_def strip_def isspace_def)

lemma invalid_notification_rejected:
  "validate_s3_key (s3_object_key invalid_notification) =
     Inl (ValueError (lit ''Invalid key path (path traversal attempt): ../../../etc/passwd''))"
  by (simp add: invalid_notification_def validate_s3_key_def lit_def)

lemma halt_message_example:
  "lit ''Validation failed, pipeline halted: '' @
     lit ''Invalid key path (path traversal attempt): ../../../etc/passwd'' =
   lit ''Validation failed, pipeline halted: Invalid key path (path traversal attempt): ../../../etc/passwd''"
  by (simp add: lit_def)

theorem trigger_handler_halts_at_first_invalid_witness:
  "trigger_handler example_trigger_env
     ([valid_notification] @ invalid_notification # [valid_notification]) =
     (Inr \<lparr>statusCode = 200,
           body = Halted (lit ''Validation failed, pipeline halted: Invalid key path (path traversal attempt): ../../../etc/passwd'')\<rparr>,
      [\<lparr>sfi_bucket = lit ''uploads'', sfi_key = lit ''reports/q1.csv'',
        sfi_timestamp = lit ''2025-01-02T00:00:00+00:00'',
        sfi_event_time = lit ''2025-01-01T00:00:00Z''\<rparr>])
   \<and> trigger_handler example_trigger_env [valid_notification] =
     (Inr \<lparr>statusCode = 200,
           body = Triggered (lit ''Successfully triggered Step Functions'')
                    [lit ''execution:reports/q1.csv'']\<rparr>,
      [\<lparr>sfi_bucket = lit ''uploads'', sfi_key = lit ''reports/q1.csv'',
        sfi_timestamp = lit ''2025-01-02T00:00:00+00:00'',
        sfi_event_time = lit ''2025-01-01T00:00:00Z''\<rparr>])"
proof -
  have h1: "STATE_MACHINE_ARN example_trigger_env =
              Some (lit ''arn:aws:states:eu-central-1:123456789012:stateMachine:test'')"
    by (simp add: example_trigger_env_def)
  have h2: "\<forall>inp. \<exists>a. start_execution example_trigger_env
              (lit ''arn:aws:states:eu-central-1:123456789012:stateMachine:test'') inp = Inr a"
    by (simp add: example_trigger_env_def)
  have h3: "\<forall>r \<in> set [valid_notification]. validate_s3_key (s3_object_key r) = Inr True"
    by (simp add: valid_notification_ok)
  have inp: "step_function_input_of example_trigger_env 0 valid_notification =
      \<lparr>sfi_bucket = lit ''uploads'', sfi_key = lit ''reports/q1.csv'',
       sfi_timestamp = lit ''2025-01-02T00:00:00+00:00'',
       sfi_event_time = lit ''2025-01-01T00:00:00Z''\<rparr>"
    by (simp add: step_function_input_of_def example_trigger_env_def valid_notification_def)
  have arn: "start_execution example_trigger_env a
      \<lparr>sfi_bucket = lit ''uploads'', sfi_key = lit ''reports/q1.csv'',
       sfi_timestamp = lit ''2025-01-02T00:00:00+00:00'',
       sfi_event_time = lit ''2025-01-01T00:00:00Z''\<rparr> = Inr (lit ''execution:reports/q1.csv'')" for a
    by (simp add: example_trigger_env_def lit_def)
  show ?thesis
    using trigger_handler_halts_at_first_invalid [OF h1 h2 h3,
        of invalid_notification
           "ValueError (lit ''Invalid key path (path traversal attempt): ../../../etc/passwd'')"
           "[valid_notification]"]
    by (simp add: invalid_notification_rejected inp arn halt_message_example)
qed

text \<open>
  C1 as stated fails: for the batch (invalid, valid) the handler starts no execution
  at all, and for the batch (valid, invalid) it starts one execution but its result
  carries only the halt message, not the execution handle.
\<close>

theorem trigger_handler_batch_counterexample:
  "trigger_handler example_trigger_env [invalid_notification, valid_notification] =
     (Inr \<lparr>statusCode = 200,
           body = Halted (lit ''Validation failed, pipeline halted: Invalid key path (path traversal attempt): ../../../etc/passwd'')\<rparr>,
      [])
   \<and> trigger_handler example_trigger_env [valid_notification, invalid_notification] =
     (Inr \<lparr>statusCode = 200,
           body = Halted (lit ''Validation failed, pipeline halted: Invalid key path (path traversal attempt): ../../../etc/passwd'')\<rparr>,
      [\<lparr>sfi_bucket = lit ''uploads'', sfi_key = lit ''reports/q1.csv'',
        sfi_timestamp = lit ''2025-01-02T00:00:00+00:00'',
        sfi_event_time = lit ''2025-01-01T00:00:00Z''\<rparr>])"
proof -
  have inp: "step_function_input_of example_trigger_env 0 valid_notification =
      \<lparr>sfi_bucket = lit ''uploads'', sfi_key = lit ''reports/q1.csv'',
       sfi_timestamp = lit ''2025-01-02T00:00:00+00:00'',
       sfi_event_time = lit ''2025-01-01T00:00:00Z''\<rparr>"
    by (simp add: step_function_input_of_def example_trigger_env_def valid_notification_def)
  have env: "STATE_MACHINE_ARN example_trigger_env =
              Some (lit ''arn:aws:states:eu-central-1:123456789012:stateMachine:test'')"
    "\<And>a i. start_execution example_trigger_env a i = Inr (lit ''execution:'' @ sfi_key i)"
    by (simp_all add: example_trigger_env_def)
  have a: "process_records example_trigger_env [invalid_notification, valid_notification] [] [] =
      (Inl (ValueError (lit ''Invalid key path (path traversal attempt): ../../../etc/passwd'')), [])"
    by (simp add: invalid_notification_rejected)
  have b: "process_records example_trigger_env [valid_notification, invalid_notification] [] [] =
      (Inl (ValueError (lit ''Invalid key path (path traversal attempt): ../../../etc/passwd'')),
       [\<lparr>sfi_bucket = lit ''uploads'', sfi_key = lit ''reports/q1.csv'',
        sfi_timestamp = lit ''2025-01-02T00:00:00+00:00'',
        sfi_event_time = lit ''2025-01-01T00:00:00Z''\<rparr>])"
    by (simp add: invalid_notification_rejected valid_notification_ok inp env)
  show ?thesis
    unfolding trigger_handler_def a b by (simp add: halt_message_example)
qed

section \<open>Claims about the Metadata Writer\<close>

lemma validate_filename_cases:
  "validate_filename k = Inr True \<or> (\<exists>m. validate_filename k = Inl (ValueError m))"
  by (simp add: validate_filename_def)

text \<open>
  One call either appends one item under a key the table did not hold and returns 200
  for that key, or leaves the table as it was and does not return 200.
\<close>

lemma writer_handler_cases:
  "(\<exists>it. writer_handler now fault tbl event =
           (Inr \<lparr>w_statusCode = 200, w_filename = Filename it,
                 w_timestamp = UploadTimestamp it, w_bucket = Some (Bucket it),
                 w_message = lit ''Successfully written to DynamoDB''\<rparr>, tbl @ [it])
         \<and> item_key it \<notin> set (map item_key tbl))
   \<or> (snd (writer_handler now fault tbl event) = tbl
       \<and> (\<forall>f t. \<not> written_for f t (fst (writer_handler now fault tbl event))))"
proof (cases "event (lit ''key'')")
  case None
  then show ?thesis by (simp add: writer_handler_def written_for_def)
next
  case key: (Some filename)
  show ?thesis
  proof (cases "event (lit ''bucket'')")
    case None
    then show ?thesis by (simp add: writer_handler_def written_for_def key)
  next
    case bucket: (Some b)
    show ?thesis
    proof (cases "validate_filename filename")
      case (Inl e)
      then show ?thesis
        by (simp add: writer_handler_def written_for_def key bucket)
    next
      case valid: (Inr v)
      define it where "it = \<lparr>Filename = filename,
          UploadTimestamp = (case event (lit ''timestamp'') of None \<Rightarrow> now | Some t \<Rightarrow> t),
          Bucket = b,
          EventTime = (case event (lit ''event_time'') of
                         None \<Rightarrow> (case event (lit ''timestamp'') of None \<Rightarrow> now | Some t \<Rightarrow> t)
                       | Some t \<Rightarrow> t)\<rparr>"
      show ?thesis
      proof (cases "put_item fault tbl it")
        case (Inr tbl')
        then have "tbl' = tbl @ [it]" and "item_key it \<notin> set (map item_key tbl)"
          by (auto simp: put_item_def split: option.splits if_splits)
        then show ?thesis
          using Inr
          by (intro disjI1 exI [of _ it])
             (simp add: writer_handler_def key bucket valid it_def Let_def)
      next
        case (Inl e)
        then show ?thesis
          by (cases e)
             (simp_all add: writer_handler_def written_for_def key bucket valid it_def Let_def)
      qed
    qed
  qed
qed

lemma writer_handler_distinct:
  assumes "distinct (map item_key tbl)"
  shows "distinct (map item_key (snd (writer_handler now fault tbl event)))"
  using writer_handler_cases [of now fault tbl event] assms by auto

lemma writer_handler_keeps_keys:
  "set (map item_key tbl) \<subseteq> set (map item_key (snd (writer_handler now fault tbl event)))"
  using writer_handler_cases [of now fault tbl event] by auto

lemma writer_handler_written:
  assumes "written_for f t (fst (writer_handler now fault tbl event))"
  shows "(f, t) \<notin> set (map item_key tbl)
         \<and> (f, t) \<in> set (map item_key (snd (writer_handler now fault tbl event)))"
proof -
  from writer_handler_cases [of now fault tbl event] assms
  obtain it where it: "writer_handler now fault tbl event =
           (Inr \<lparr>w_statusCode = 200, w_filename = Filename it,
                 w_timestamp = UploadTimestamp it, w_bucket = Some (Bucket it),
                 w_message = lit ''Successfully written to DynamoDB''\<rparr>, tbl @ [it])"
      and new: "item_key it \<notin> set (map item_key tbl)"
    by blast
  from assms have "item_key it = (f, t)"
    by (simp add: it written_for_def item_key_def)
  then show ?thesis using new by (simp add: it)
qed

lemma run_writer_step:
  "run_writer tbl ((now, fault, event) # calls) =
     (fst (writer_handler now fault tbl event)
        # fst (run_writer (snd (writer_handler now fault tbl event)) calls),
      snd (run_writer (snd (writer_handler now fault tbl event)) calls))"
  by (simp split: prod.splits)

lemma run_writer_distinct:
  "distinct (map item_key tbl) \<Longrightarrow> distinct (map item_key (snd (run_writer tbl calls)))"
proof (induction calls arbitrary: tbl)
  case Nil
  then show ?case by simp
next
  case (Cons c calls)
  obtain now fault event where c: "c = (now, fault, event)" by (cases c) auto
  have "distinct (map item_key (snd (writer_handler now fault tbl event)))"
    using Cons.prems by (rule writer_handler_distinct)
  from Cons.IH [OF this] show ?case
    unfolding c run_writer_step by simp
qed

lemma run_writer_present:
  "(f, t) \<in> set (map item_key tbl) \<Longrightarrow>
   filter (written_for f t) (fst (run_writer tbl calls)) = []"
proof (induction calls arbitrary: tbl)
  case Nil
  then show ?case by simp
next
  case (Cons c calls)
  obtain now fault event where c: "c = (now, fault, event)" by (cases c) auto
  have nw: "\<not> written_for f t (fst (writer_handler now fault tbl event))"
    using writer_handler_written [of f t now fault tbl event] Cons.prems by blast
  have "(f, t) \<in> set (map item_key (snd (writer_handler now fault tbl event)))"
    using writer_handler_keeps_keys [of tbl now fault event] Cons.prems by blast
  from Cons.IH [OF this] nw show ?case
    unfolding c run_writer_step by simp
qed

lemma run_writer_written_once:
  "length (filter (written_for f t) (fst (run_writer tbl calls))) \<le> 1"
proof (induction calls arbitrary: tbl)
  case Nil
  then show ?case by simp
next
  case (Cons c calls)
  obtain now fault event where c: "c = (now, fault, event)" by (cases c) auto
  let ?tbl' = "snd (writer_handler now fault tbl event)"
  show ?case
  proof (cases "written_for f t (fst (writer_handler now fault tbl event))")
    case True
    then have "(f, t) \<in> set (map item_key ?tbl')"
      using writer_handler_written by blast
    then have "filter (written_for f t) (fst (run_writer ?tbl' calls)) = []"
      by (rule run_writer_present)
    then show ?thesis using True unfolding c run_writer_step by simp
  next
    case False
    then show ?thesis using Cons.IH [of ?tbl'] unfolding c run_writer_step by simp
  qed
qed

lemma writer_handler_first_write:
  assumes "validate_filename f = Inr True"
    and "event (lit ''key'') = Some f"
    and "event (lit ''bucket'') = Some b"
    and "(case event (lit ''timestamp'') of None \<Rightarrow> now | Some x \<Rightarrow> x) = t"
    and "(f, t) \<notin> set (map item_key tbl)"
  shows "writer_handler now None tbl event =
     (Inr \<lparr>w_statusCode = 200, w_filename = f, w_timestamp = t, w_bucket = Some b,
           w_message = lit ''Successfully written to DynamoDB''\<rparr>,
      tbl @ [\<lparr>Filename = f, UploadTimestamp = t, Bucket = b,
               EventTime = (case event (lit ''event_time'') of None \<Rightarrow> t | Some x \<Rightarrow> x)\<rparr>])"
  using assms by (auto simp: writer_handler_def put_item_def item_key_def Let_def)

lemma writer_handler_duplicate:
  assumes "validate_filename f = Inr True"
    and "event (lit ''key'') = Some f"
    and "event (lit ''bucket'') = Some b"
    and "(case event (lit ''timestamp'') of None \<Rightarrow> now | Some x \<Rightarrow> x) = t"
    and "(f, t) \<in> set (map item_key tbl)"
  shows "writer_handler now None tbl event =
     (Inr \<lparr>w_statusCode = 409, w_filename = f, w_timestamp = t, w_bucket = None,
           w_message = lit ''Duplicate entry - item already exists''\<rparr>, tbl)"
  using assms by (auto simp: writer_handler_def put_item_def item_key_def Let_def)

text \<open>
  C2. Two Writer calls that carry the same valid filename and the same upload timestamp
  (given in the event, or defaulted from the clock), made one after the other on a
  table that does not hold that key and with the store answering, return status 200
  and then status 409, whatever else the two events hold and whichever of them comes
  first; the second call leaves the table as the first one left it. In any sequence of
  calls, from any table and with any store failures, at most one call returns status
  200 for a given (filename, timestamp), and a table with at most one item per
  (\<open>Filename\<close>, \<open>UploadTimestamp\<close>) stays so.
\<close>

theorem writer_idempotent:
  "(validate_filename f = Inr True
      \<and> e1 (lit ''key'') = Some f \<and> e2 (lit ''key'') = Some f
      \<and> e1 (lit ''bucket'') = Some b1 \<and> e2 (lit ''bucket'') = Some b2
      \<and> (case e1 (lit ''timestamp'') of None \<Rightarrow> now1 | Some x \<Rightarrow> x) = t
      \<and> (case e2 (lit ''timestamp'') of None \<Rightarrow> now2 | Some x \<Rightarrow> x) = t
      \<and> (f, t) \<notin> set (map item_key tbl)
    \<longrightarrow> run_writer tbl [(now1, None, e1), (now2, None, e2)] =
          ([Inr \<lparr>w_statusCode = 200, w_filename = f, w_timestamp = t, w_bucket = Some b1,
                  w_message = lit ''Successfully written to DynamoDB''\<rparr>,
            Inr \<lparr>w_statusCode = 409, w_filename = f, w_timestamp = t, w_bucket = None,
                  w_message = lit ''Duplicate entry - item already exists''\<rparr>],
           tbl @ [\<lparr>Filename = f, UploadTimestamp = t, Bucket = b1,
                    EventTime = (case e1 (lit ''event_time'') of None \<Rightarrow> t | Some x \<Rightarrow> x)\<rparr>]))
   \<and> length (filter (written_for f t) (fst (run_writer tbl calls))) \<le> 1
   \<and> (distinct (map item_key tbl) \<longrightarrow> distinct (map item_key (snd (run_writer tbl calls))))"
proof -
  have pair: "run_writer tbl [(now1, None, e1), (now2, None, e2)] =
          ([Inr \<lparr>w_statusCode = 200, w_filename = f, w_timestamp = t, w_bucket = Some b1,
                  w_message = lit ''Successfully written to DynamoDB''\<rparr>,
            Inr \<lparr>w_statusCode = 409, w_filename = f, w_timestamp = t, w_bucket = None,
                  w_message = lit ''Duplicate entry - item already exists''\<rparr>],
           tbl @ [\<lparr>Filename = f, UploadTimestamp = t, Bucket = b1,
                    EventTime = (case e1 (lit ''event_time'') of None \<Rightarrow> t | Some x \<Rightarrow> x)\<rparr>])"
    if v: "validate_filename f = Inr True"
      and k1: "e1 (lit ''key'') = Some f" and k2: "e2 (lit ''key'') = Some f"
      and b1: "e1 (lit ''bucket'') = Some b1" and b2: "e2 (lit ''bucket'') = Some b2"
      and t1: "(case e1 (lit ''timestamp'') of None \<Rightarrow> now1 | Some x \<Rightarrow> x) = t"
      and t2: "(case e2 (lit ''timestamp'') of None \<Rightarrow> now2 | Some x \<Rightarrow> x) = t"
      and new: "(f, t) \<notin> set (map item_key tbl)"
  proof -
    let ?it = "\<lparr>Filename = f, UploadTimestamp = t, Bucket = b1,
                 EventTime = (case e1 (lit ''event_time'') of None \<Rightarrow> t | Some x \<Rightarrow> x)\<rparr>"
    have first: "writer_handler now1 None tbl e1 =
        (Inr \<lparr>w_statusCode = 200, w_filename = f, w_timestamp = t, w_bucket = Some b1,
              w_message = lit ''Successfully written to DynamoDB''\<rparr>, tbl @ [?it])"
      by (rule writer_handler_first_write [OF v k1 b1 t1 new])
    have held: "(f, t) \<in> set (map item_key (tbl @ [?it]))"
      by (simp add: item_key_def)
    have second: "writer_handler now2 None (tbl @ [?it]) e2 =
        (Inr \<lparr>w_statusCode = 409, w_filename = f, w_timestamp = t, w_bucket = None,
              w_message = lit ''Duplicate entry - item already exists''\<rparr>, tbl @ [?it])"
      by (rule writer_handler_duplicate [OF v k2 b2 t2 held])
    show ?thesis
      unfolding run_writer_step first fst_conv snd_conv second by simp
  qed
  have once: "length (filter (written_for f t) (fst (run_writer tbl calls))) \<le> 1"
    by (rule run_writer_written_once)
  have inv: "distinct (map item_key (snd (run_writer tbl calls)))"
    if "distinct (map item_key tbl)"
    using that by (rule run_writer_distinct)
  show ?thesis using pair once inv by blast
qed

lemma example_filename_valid: "validate_filename (lit ''reports/q1.csv'') = Inr True"
  by (simp add: validate_filename_def lit_def strip_def isspace_def)

lemma example_event_fields:
  "example_event (lit ''key'') = Some (lit ''reports/q1.csv'')"
  "example_event (lit ''bucket'') = Some (lit ''uploads'')"
  "example_event (lit ''timestamp'') = Some (lit ''2025-01-01T00:00:00'')"
  "example_event (lit ''event_time'') = None"
  by (simp_all add: example_event_def lit_def)

lemma example_retry_event_fields:
  "example_retry_event (lit ''key'') = Some (lit ''reports/q1.csv'')"
  "example_retry_event (lit ''bucket'') = Some (lit ''uploads-replica'')"
  "example_retry_event (lit ''timestamp'') = Some (lit ''2025-01-01T00:00:00'')"
  "example_retry_event (lit ''event_time'') = Some (lit ''2025-01-01T00:00:00Z'')"
  by (simp_all add: example_retry_event_def lit_def)

theorem writer_idempotent_witness:
  "run_writer [] [(lit ''2025-01-03'', None, example_event),
                  (lit ''2025-01-04'', None, example_retry_event)] =
     ([Inr \<lparr>w_statusCode = 200, w_filename = lit ''reports/q1.csv'',
             w_timestamp = lit ''2025-01-01T00:00:00'', w_bucket = Some (lit ''uploads''),
             w_message = lit ''Successfully written to DynamoDB''\<rparr>,
       Inr \<lparr>w_statusCode = 409, w_filename = lit ''reports/q1.csv'',
             w_timestamp = lit ''2025-01-01T00:00:00'', w_bucket = None,
             w_message = lit ''Duplicate entry - item already exists''\<rparr>],
      [\<lparr>Filename = lit ''reports/q1.csv'', UploadTimestamp = lit ''2025-01-01T00:00:00'',
        Bucket = lit ''uploads'', EventTime = lit ''2025-01-01T00:00:00''\<rparr>])
   \<and> distinct (map item_key (snd (run_writer []
         [(lit ''2025-01-03'', None, example_event),
          (lit ''2025-01-04'', None, example_retry_event)])))"
  using writer_idempotent [of "lit ''reports/q1.csv''" example_event example_retry_event
      "lit ''uploads''" "lit ''uploads-replica''" "lit ''2025-01-03''"
      "lit ''2025-01-01T00:00:00''" "lit ''2025-01-04''" "[]"
      "[(lit ''2025-01-03'', None, example_event),
        (lit ''2025-01-04'', None, example_retry_event)]"]
  by (simp add: example_filename_valid example_event_fields example_retry_event_fields
        del: run_writer.simps)

text \<open>
  C8. When the event's key fails filename validation, the Writer returns no result: it
  raises, and the table is left as it was. With the bucket field present the exception
  is the validator's \<open>ValueError\<close>; without it the \<open>KeyError\<close> for \<open>bucket\<close> is
  raised first.
\<close>

theorem writer_surfaces_invalid_filename:
  assumes "event (lit ''key'') = Some filename"
    and "validate_filename filename = Inl e"
  shows "writer_handler now fault tbl event =
           (Inl (case event (lit ''bucket'') of
                   None \<Rightarrow> KeyError (lit ''bucket'')
                 | Some b \<Rightarrow> e), tbl)
         \<and> (\<exists>m. e = ValueError m)"
proof -
  have "\<exists>m. e = ValueError m"
    using assms(2) validate_filename_cases [of filename] by auto
  moreover have "writer_handler now fault tbl event =
           (Inl (case event (lit ''bucket'') of
                   None \<Rightarrow> KeyError (lit ''bucket'')
                 | Some b \<Rightarrow> e), tbl)"
    using assms by (simp add: writer_handler_def split: option.splits)
  ultimately show ?thesis by simp
qed

lemma traversal_event_fields:
  "traversal_event (lit ''key'') = Some (lit ''../../../etc/passwd'')"
  "traversal_event (lit ''bucket'') = Some (lit ''uploads'')"
  by (simp_all add: traversal_event_def lit_def)

lemma traversal_filename_rejected:
  "validate_filename (lit ''../../../etc/passwd'') =
     Inl (ValueError (lit ''Invalid filename (path traversal attempt): ../../../etc/passwd''))"
  by (simp add: validate_filename_def lit_def strip_def isspace_def)

theorem writer_surfaces_invalid_filename_witness:
  "writer_handler (lit ''2025-01-03'') None [] traversal_event =
     (Inl (ValueError (lit ''Invalid filename (path traversal attempt): ../../../etc/passwd'')),
      [])"
  using writer_surfaces_invalid_filename [of traversal_event "lit ''../../../etc/passwd''"
      "ValueError (lit ''Invalid filename (path traversal attempt): ../../../etc/passwd'')"
      "lit ''2025-01-03''" None "[]"]
  by (simp add: traversal_event_fields traversal_filename_rejected)

text \<open>
  C10. When the event has no \<open>key\<close> or no \<open>bucket\<close> field, the Writer raises
  \<open>KeyError\<close> for the first of the two that is missing. This holds whatever the
  filename is (valid or not) and whatever the store would answer, and the table is left
  as it was: the lookup fails before validation and before the write.
\<close>

theorem writer_missing_field:
  assumes "event (lit ''key'') = None \<or> event (lit ''bucket'') = None"
  shows "writer_handler now fault tbl event =
           (Inl (KeyError (if event (lit ''key'') = None then lit ''key'' else lit ''bucket'')),
            tbl)"
  using assms by (auto simp: writer_handler_def split: option.splits)

theorem writer_missing_field_witness:
  "writer_handler (lit ''2025-01-03'') None [] keyless_event =
     (Inl (KeyError (lit ''key'')), [])
   \<and> writer_handler (lit ''2025-01-03'') None []
        [lit ''key'' \<mapsto> lit ''../../../etc/passwd''] =
     (Inl (KeyError (lit ''bucket'')), [])"
proof -
  have a: "keyless_event (lit ''key'') = None"
    by (simp add: keyless_event_def lit_def)
  have b: "[lit ''key'' \<mapsto> lit ''../../../etc/passwd''] (lit ''bucket'') = None"
    "[lit ''key'' \<mapsto> lit ''../../../etc/passwd''] (lit ''key'') \<noteq> None"
    by (simp_all add: lit_def)
  show ?thesis
    using writer_missing_field [of keyless_event "lit ''2025-01-03''" None "[]"]
      writer_missing_field [of "[lit ''key'' \<mapsto> lit ''../../../etc/passwd'']"
        "lit ''2025-01-03''" None "[]"] a b
    by simp
qed

section \<open>Properties of the scanner's loops\<close>

text \<open>The loops only append to the log they are given.\<close>

lemma check_buckets_log:
  "check_buckets env bs acc (log @ lg) =
     (fst (check_buckets env bs acc lg), log @ snd (check_buckets env bs acc lg))"
proof (induction bs arbitrary: acc lg)
  case Nil
  then show ?case by simp
next
  case (Cons b bs)
  show ?case
  proof (cases "get_bucket_encryption env b")
    case (Inr rules)
    then show ?thesis
      using Cons.IH
      by (cases rules) (auto split: option.splits)
  next
    case (Inl e)
    then show ?thesis
      using Cons.IH [of acc "lg @ [lit ''Error checking bucket '' @ [39] @ b @ [39] @ lit '': '' @ m]" for m]
        Cons.IH [of _ lg]
      by (cases e) auto
  qed
qed

lemma check_tables_log:
  "check_tables env ts acc (log @ lg) =
     (fst (check_tables env ts acc lg), log @ snd (check_tables env ts acc lg))"
proof (induction ts arbitrary: acc lg)
  case Nil
  then show ?case by simp
next
  case (Cons t ts)
  show ?case
  proof (cases "describe_table env t")
    case (Inr d)
    then show ?thesis using Cons.IH by auto
  next
    case (Inl e)
    then show ?thesis
      using Cons.IH [of acc "lg @ [lit ''Error checking table '' @ [39] @ t @ [39] @ lit '': '' @ m]" for m]
      by (cases e) auto
  qed
qed

text \<open>What a loop that runs to its end returns.\<close>

lemma check_buckets_issues:
  "check_buckets env bs acc log = (Inr issues, log') \<Longrightarrow>
   issues = acc @ concat (map (bucket_issues env) bs)"
proof (induction bs arbitrary: acc log)
  case Nil
  then show ?case by simp
next
  case (Cons b bs)
  show ?case
  proof (cases "get_bucket_encryption env b")
    case (Inr rules)
    show ?thesis
    proof (cases rules)
      case Nil
      then show ?thesis using Cons.prems Inr by simp
    next
      case (Cons rule rest)
      show ?thesis
      proof (cases rule)
        case None
        then show ?thesis using Cons.prems Inr Cons by simp
      next
        case (Some algorithm)
        show ?thesis
        proof (cases "algorithm = lit ''aws:kms''")
          case True
          then have "check_buckets env bs acc log = (Inr issues, log')"
            using Cons.prems Inr Cons Some by simp
          from Cons.IH [OF this] show ?thesis
            by (simp add: bucket_issues_def Inr Cons Some True)
        next
          case False
          then have "check_buckets env bs
              (acc @ [\<lparr>name = b, reason = lit ''is not encrypted with a KMS key (uses default ''
                         @ algorithm @ lit '' encryption).''\<rparr>]) log = (Inr issues, log')"
            using Cons.prems Inr Cons Some by simp
          from Cons.IH [OF this] show ?thesis
            by (simp add: bucket_issues_def Inr Cons Some False)
        qed
      qed
    qed
  next
    case (Inl e)
    show ?thesis
    proof (cases e)
      case (ClientError code m)
      show ?thesis
      proof (cases "code = lit ''ServerSideEncryptionConfigurationNotFoundError''")
        case True
        then have "check_buckets env bs
            (acc @ [\<lparr>name = b, reason = lit ''has no encryption configuration at all.''\<rparr>]) log =
            (Inr issues, log')"
          using Cons.prems Inl ClientError by simp
        from Cons.IH [OF this] show ?thesis
          by (simp add: bucket_issues_def Inl ClientError True)
      next
        case False
        then have "check_buckets env bs acc
            (log @ [lit ''Error checking bucket '' @ [39] @ b @ [39] @ lit '': '' @ m]) =
            (Inr issues, log')"
          using Cons.prems Inl ClientError by simp
        from Cons.IH [OF this] show ?thesis
          by (simp add: bucket_issues_def Inl ClientError False)
      qed
    qed (use Cons.prems Inl in simp_all)
  qed
qed

lemma check_tables_result:
  "check_tables env ts acc log = (Inr r, log') \<Longrightarrow> r = acc @ filter (table_flagged env) ts"
proof (induction ts arbitrary: acc log)
  case Nil
  then show ?case by simp
next
  case (Cons t ts)
  show ?case
  proof (cases "describe_table env t")
    case (Inr d)
    show ?thesis
    proof (cases "table_flagged env t")
      case True
      then have "check_tables env ts (acc @ [t]) log = (Inr r, log')"
        using Cons.prems Inr by (auto simp: table_flagged_def split: option.splits if_splits)
      from Cons.IH [OF this] show ?thesis using True by simp
    next
      case False
      then have "check_tables env ts acc log = (Inr r, log')"
        using Cons.prems Inr by (auto simp: table_flagged_def split: option.splits if_splits)
      from Cons.IH [OF this] show ?thesis using False by simp
    qed
  next
    case (Inl e)
    then have nf: "\<not> table_flagged env t" by (simp add: table_flagged_def)
    show ?thesis
    proof (cases e)
      case (ClientError code m)
      then have "check_tables env ts acc
          (log @ [lit ''Error checking table '' @ [39] @ t @ [39] @ lit '': '' @ m]) = (Inr r, log')"
        using Cons.prems Inl by simp
      from Cons.IH [OF this] show ?thesis using nf by simp
    qed (use Cons.prems Inl in simp_all)
  qed
qed

lemma bucket_issues_shape:
  "bucket_issues env b = [] \<or> (\<exists>r. bucket_issues env b = [\<lparr>name = b, reason = r\<rparr>])"
  by (simp add: bucket_issues_def split: sum.splits list.splits option.splits exn.splits)

lemma filter_name_concat:
  assumes "distinct bs" and "b \<in> set bs"
  shows "filter (\<lambda>i. name i = b) (concat (map (bucket_issues env) bs)) = bucket_issues env b"
  using assms
proof (induction bs)
  case Nil
  then show ?case by simp
next
  case (Cons a bs)
  have other: "filter (\<lambda>i. name i = b) (bucket_issues env a) = []" if "a \<noteq> b" for a
    using that bucket_issues_shape [of env a] by auto
  have same: "filter (\<lambda>i. name i = b) (bucket_issues env b) = bucket_issues env b"
    using bucket_issues_shape [of env b] by auto
  have absent: "filter (\<lambda>i. name i = b) (concat (map (bucket_issues env) cs)) = []"
    if "b \<notin> set cs" for cs
    using that other by (induction cs) auto
  show ?case
  proof (cases "a = b")
    case True
    then have "b \<notin> set bs" using Cons.prems by simp
    then show ?thesis using True same absent by simp
  next
    case False
    then have "b \<in> set bs" "distinct bs" using Cons.prems by auto
    then show ?thesis using Cons.IH other [OF False] by simp
  qed
qed

lemma names_concat_bucket_issues:
  "map name (concat (map (bucket_issues env) bs)) = filter (\<lambda>b. bucket_issues env b \<noteq> []) bs"
proof (induction bs)
  case Nil
  then show ?case by simp
next
  case (Cons a bs)
  then show ?case using bucket_issues_shape [of env a] by auto
qed

lemma check_s3_encryption_Inr:
  assumes "check_s3_encryption env log = (Inr issues, log')"
    and "list_buckets env = Inr buckets"
  shows "issues = concat (map (bucket_issues env) buckets)"
proof -
  obtain r l where c: "check_buckets env buckets [] log = (r, l)"
    by (cases "check_buckets env buckets [] log")
  with assms have "r = Inr issues"
    by (cases r) (simp_all add: check_s3_encryption_def)
  with c check_buckets_issues [of env buckets "[]" log issues l] show ?thesis by simp
qed

lemma check_dynamodb_encryption_Inr:
  assumes "check_dynamodb_encryption env log = (Inr r, log')"
    and "list_tables env = Inr tables"
  shows "r = filter (table_flagged env) tables"
proof -
  obtain x l where c: "check_tables env tables [] log = (x, l)"
    by (cases "check_tables env tables [] log")
  with assms have "x = Inr r"
    by (cases x) (simp_all add: check_dynamodb_encryption_def)
  with c check_tables_result [of env tables "[]" log r l] show ?thesis by simp
qed

lemma filter_eq_distinct:
  "distinct ts \<Longrightarrow> filter (\<lambda>x. x = t) (filter P ts) = (if t \<in> set ts \<and> P t then [t] else [])"
  by (induction ts) auto

text \<open>The loops read the per-resource answers only.\<close>

lemma check_buckets_cong:
  "get_bucket_encryption env' = get_bucket_encryption env \<Longrightarrow>
   check_buckets env' bs acc log = check_buckets env bs acc log"
proof (induction bs arbitrary: acc log)
  case Nil
  then show ?case by simp
next
  case (Cons b bs)
  show ?case
  proof (cases "get_bucket_encryption env b")
    case (Inr rules)
    then show ?thesis
      using Cons by (cases rules) (auto split: option.splits)
  next
    case (Inl e)
    then show ?thesis
      using Cons by (cases e) auto
  qed
qed

lemma check_tables_cong:
  "describe_table env' = describe_table env \<Longrightarrow>
   check_tables env' ts acc log = check_tables env ts acc log"
proof (induction ts arbitrary: acc log)
  case Nil
  then show ?case by simp
next
  case (Cons t ts)
  show ?case
  proof (cases "describe_table env t")
    case (Inr d)
    then show ?thesis using Cons by auto
  next
    case (Inl e)
    then show ?thesis
      using Cons by (cases e) auto
  qed
qed

lemma check_buckets_fst_log:
  "fst (check_buckets env bs acc log) = fst (check_buckets env bs acc [])"
  using check_buckets_log [of env bs acc log "[]"] by simp

lemma check_tables_fst_log:
  "fst (check_tables env ts acc log) = fst (check_tables env ts acc [])"
  using check_tables_log [of env ts acc log "[]"] by simp

lemma check_buckets_log_mono:
  "set log \<subseteq> set (snd (check_buckets env bs acc log))"
  using check_buckets_log [of env bs acc log "[]"] by simp

lemma check_tables_log_mono:
  "set log \<subseteq> set (snd (check_tables env ts acc log))"
  using check_tables_log [of env ts acc log "[]"] by simp

text \<open>
  A bucket whose inspection raises a \<open>ClientError\<close> with another code than the
  no-configuration one adds a line to the log and nothing else.
\<close>

lemma check_buckets_skip:
  assumes "get_bucket_encryption env b = Inl (ClientError code m)"
    and "code \<noteq> lit ''ServerSideEncryptionConfigurationNotFoundError''"
  shows "fst (check_buckets env (pre @ b # post) acc log) =
         fst (check_buckets env (pre @ post) acc log)
       \<and> (\<not> isl (fst (check_buckets env (pre @ b # post) acc log)) \<longrightarrow>
            lit ''Error checking bucket '' @ [39] @ b @ [39] @ lit '': '' @ m
              \<in> set (snd (check_buckets env (pre @ b # post) acc log)))"
proof (induction pre arbitrary: acc log)
  case Nil
  let ?line = "lit ''Error checking bucket '' @ [39] @ b @ [39] @ lit '': '' @ m"
  have step: "check_buckets env (b # post) acc log = check_buckets env post acc (log @ [?line])"
    using assms by simp
  have "fst (check_buckets env post acc (log @ [?line])) = fst (check_buckets env post acc log)"
    using check_buckets_fst_log [of env post acc "log @ [?line]"]
      check_buckets_fst_log [of env post acc log] by simp
  moreover have "?line \<in> set (snd (check_buckets env post acc (log @ [?line])))"
    using check_buckets_log_mono [of "log @ [?line]" env post acc] by auto
  ultimately show ?case using step by simp
next
  case (Cons a pre)
  show ?case
  proof (cases "get_bucket_encryption env a")
    case (Inr rules)
    then show ?thesis
      using Cons.IH by (cases rules) (auto split: option.splits)
  next
    case (Inl e)
    then show ?thesis
      using Cons.IH by (cases e) auto
  qed
qed

lemma check_tables_skip:
  assumes "describe_table env t = Inl (ClientError code m)"
  shows "fst (check_tables env (pre @ t # post) acc log) =
         fst (check_tables env (pre @ post) acc log)
       \<and> (\<not> isl (fst (check_tables env (pre @ t # post) acc log)) \<longrightarrow>
            lit ''Error checking table '' @ [39] @ t @ [39] @ lit '': '' @ m
              \<in> set (snd (check_tables env (pre @ t # post) acc log)))"
proof (induction pre arbitrary: acc log)
  case Nil
  let ?line = "lit ''Error checking table '' @ [39] @ t @ [39] @ lit '': '' @ m"
  have step: "check_tables env (t # post) acc log = check_tables env post acc (log @ [?line])"
    using assms by simp
  have "fst (check_tables env post acc (log @ [?line])) = fst (check_tables env post acc log)"
    using check_tables_fst_log [of env post acc "log @ [?line]"]
      check_tables_fst_log [of env post acc log] by simp
  moreover have "?line \<in> set (snd (check_tables env post acc (log @ [?line])))"
    using check_tables_log_mono [of "log @ [?line]" env post acc] by auto
  ultimately show ?case using step by simp
next
  case (Cons a pre)
  show ?case
  proof (cases "describe_table env a")
    case (Inr d)
    then show ?thesis using Cons.IH by auto
  next
    case (Inl e)
    then show ?thesis
      using Cons.IH by (cases e) auto
  qed
qed

text \<open>The two scans in terms of their loops.\<close>

lemma check_s3_encryption_loop:
  "list_buckets env = Inr buckets \<Longrightarrow>
   fst (check_s3_encryption env log) = fst (check_buckets env buckets [] log)
   \<and> set (snd (check_buckets env buckets [] log)) \<subseteq> set (snd (check_s3_encryption env log))"
  by (cases "check_buckets env buckets [] log"; cases "fst (check_buckets env buckets [] log)")
     (auto simp: check_s3_encryption_def)

lemma check_dynamodb_encryption_loop:
  "list_tables env = Inr tables \<Longrightarrow>
   fst (check_dynamodb_encryption env log) = fst (check_tables env tables [] log)
   \<and> set (snd (check_tables env tables [] log)) \<subseteq> set (snd (check_dynamodb_encryption env log))"
  by (cases "check_tables env tables [] log"; cases "fst (check_tables env tables [] log)")
     (auto simp: check_dynamodb_encryption_def)

text \<open>
  When a loop runs to its end: exactly when every resource it is given is answered with
  a value the body can read, or with a \<open>ClientError\<close>.
\<close>

lemma check_buckets_completes:
  "\<not> isl (fst (check_buckets env bs acc log)) \<longleftrightarrow>
     (\<forall>x \<in> set bs. (\<exists>a r. get_bucket_encryption env x = Inr (Some a # r))
                    \<or> (\<exists>c t. get_bucket_encryption env x = Inl (ClientError c t)))"
proof (induction bs arbitrary: acc log)
  case Nil
  then show ?case by simp
next
  case (Cons b bs)
  show ?case
  proof (cases "get_bucket_encryption env b")
    case (Inr rules)
    show ?thesis
    proof (cases rules)
      case Nil
      then show ?thesis using Inr by simp
    next
      case (Cons rule rest)
      then show ?thesis
        using Inr Cons.IH by (cases rule) auto
    qed
  next
    case (Inl e)
    then show ?thesis
      using Cons.IH by (cases e) auto
  qed
qed

lemma check_tables_completes:
  "\<not> isl (fst (check_tables env ts acc log)) \<longleftrightarrow>
     (\<forall>x \<in> set ts. (\<exists>d. describe_table env x = Inr d)
                    \<or> (\<exists>c t. describe_table env x = Inl (ClientError c t)))"
proof (induction ts arbitrary: acc log)
  case Nil
  then show ?case by simp
next
  case (Cons t ts)
  show ?case
  proof (cases "describe_table env t")
    case (Inr d)
    then show ?thesis using Cons.IH by auto
  next
    case (Inl e)
    then show ?thesis
      using Cons.IH by (cases e) auto
  qed
qed

section \<open>Claims about the Compliance Scanner\<close>

text \<open>
  C5. A scan of the listed buckets runs to its end exactly when every listed bucket is
  answered with a configuration whose first rule has a default algorithm, or with a
  \<open>ClientError\<close>; a scan of the listed tables runs to its end exactly when every listed
  table is answered with a description or with a \<open>ClientError\<close>. In a bucket scan
  that has run to its end over distinct bucket names, the issues reported for a bucket
  \<open>b\<close> are: none, when the first rule's algorithm is \<open>aws:kms\<close>; exactly one, whose
  reason names the algorithm, when it is any other algorithm; exactly one with the
  no-configuration reason, when the store answers with the error code
  \<open>ServerSideEncryptionConfigurationNotFoundError\<close>. In a table scan that has run to
  its end over distinct table names, a table whose \<open>SSEDescription\<close> has \<open>Status\<close>
  \<open>ENABLED\<close> is not reported, and a table with no \<open>SSEDescription\<close> or with any other
  or no \<open>Status\<close> is reported exactly once, by its name.
\<close>

theorem scanner_classification:
  "(list_buckets env = Inr buckets \<longrightarrow>
      (\<not> isl (fst (check_s3_encryption env log)) \<longleftrightarrow>
         (\<forall>x \<in> set buckets.
            (\<exists>a r. get_bucket_encryption env x = Inr (Some a # r))
            \<or> (\<exists>c t. get_bucket_encryption env x = Inl (ClientError c t)))))
   \<and> (check_s3_encryption env log = (Inr issues, log') \<and> list_buckets env = Inr buckets
      \<and> distinct buckets \<and> b \<in> set buckets \<longrightarrow>
      (get_bucket_encryption env b = Inr (Some (lit ''aws:kms'') # rest) \<longrightarrow>
         filter (\<lambda>i. name i = b) issues = [])
    \<and> (get_bucket_encryption env b = Inr (Some algorithm # rest) \<and> algorithm \<noteq> lit ''aws:kms'' \<longrightarrow>
         filter (\<lambda>i. name i = b) issues =
           [\<lparr>name = b,
             reason = lit ''is not encrypted with a KMS key (uses default '' @ algorithm
                        @ lit '' encryption).''\<rparr>])
    \<and> (get_bucket_encryption env b =
          Inl (ClientError (lit ''ServerSideEncryptionConfigurationNotFoundError'') m) \<longrightarrow>
         filter (\<lambda>i. name i = b) issues =
           [\<lparr>name = b, reason = lit ''has no encryption configuration at all.''\<rparr>]))
   \<and> (list_tables env = Inr tables \<longrightarrow>
      (\<not> isl (fst (check_dynamodb_encryption env tlog)) \<longleftrightarrow>
         (\<forall>x \<in> set tables.
            (\<exists>d. describe_table env x = Inr d)
            \<or> (\<exists>c t. describe_table env x = Inl (ClientError c t)))))
   \<and> (check_dynamodb_encryption env tlog = (Inr unencrypted, tlog') \<and> list_tables env = Inr tables
      \<and> distinct tables \<and> t \<in> set tables \<longrightarrow>
      (describe_table env t = Inr (Some d) \<and> map_of d (lit ''Status'') = Some (lit ''ENABLED'') \<longrightarrow>
         filter (\<lambda>x. x = t) unencrypted = [])
    \<and> (describe_table env t = Inr None
         \<or> (describe_table env t = Inr (Some d)
             \<and> map_of d (lit ''Status'') \<noteq> Some (lit ''ENABLED'')) \<longrightarrow>
         filter (\<lambda>x. x = t) unencrypted = [t]))"
proof -
  have buckets: "filter (\<lambda>i. name i = b) issues = bucket_issues env b"
    if "check_s3_encryption env log = (Inr issues, log')" "list_buckets env = Inr buckets"
      "distinct buckets" "b \<in> set buckets"
    using check_s3_encryption_Inr [OF that(1,2)] filter_name_concat [OF that(3,4), of env]
    by simp
  have kms: "bucket_issues env b = []"
    if "get_bucket_encryption env b = Inr (Some (lit ''aws:kms'') # rest)"
    using that by (simp add: bucket_issues_def)
  have other: "bucket_issues env b =
           [\<lparr>name = b,
             reason = lit ''is not encrypted with a KMS key (uses default '' @ algorithm
                        @ lit '' encryption).''\<rparr>]"
    if "get_bucket_encryption env b = Inr (Some algorithm # rest)" "algorithm \<noteq> lit ''aws:kms''"
    using that by (simp add: bucket_issues_def)
  have none: "bucket_issues env b =
           [\<lparr>name = b, reason = lit ''has no encryption configuration at all.''\<rparr>]"
    if "get_bucket_encryption env b =
          Inl (ClientError (lit ''ServerSideEncryptionConfigurationNotFoundError'') m)"
    using that by (simp add: bucket_issues_def)
  have tables: "filter (\<lambda>x. x = t) unencrypted = (if table_flagged env t then [t] else [])"
    if "check_dynamodb_encryption env tlog = (Inr unencrypted, tlog')"
      "list_tables env = Inr tables" "distinct tables" "t \<in> set tables"
    using check_dynamodb_encryption_Inr [OF that(1,2)] filter_eq_distinct [OF that(3)] that(4)
    by simp
  have enabled: "\<not> table_flagged env t"
    if "describe_table env t = Inr (Some d)" "map_of d (lit ''Status'') = Some (lit ''ENABLED'')"
    using that by (auto simp: table_flagged_def)
  have flagged: "table_flagged env t"
    if "describe_table env t = Inr None
         \<or> (describe_table env t = Inr (Some d)
             \<and> map_of d (lit ''Status'') \<noteq> Some (lit ''ENABLED''))"
    using that by (auto simp: table_flagged_def)
  have bruns: "\<not> isl (fst (check_s3_encryption env log)) \<longleftrightarrow>
         (\<forall>x \<in> set buckets.
            (\<exists>a r. get_bucket_encryption env x = Inr (Some a # r))
            \<or> (\<exists>c t. get_bucket_encryption env x = Inl (ClientError c t)))"
    if "list_buckets env = Inr buckets"
    using check_s3_encryption_loop [OF that, of log]
      check_buckets_completes [of env buckets "[]" log]
    by simp
  have truns: "\<not> isl (fst (check_dynamodb_encryption env tlog)) \<longleftrightarrow>
         (\<forall>x \<in> set tables.
            (\<exists>d. describe_table env x = Inr d)
            \<or> (\<exists>c t. describe_table env x = Inl (ClientError c t)))"
    if "list_tables env = Inr tables"
    using check_dynamodb_encryption_loop [OF that, of tlog]
      check_tables_completes [of env tables "[]" tlog]
    by simp
  have bpart: "(get_bucket_encryption env b = Inr (Some (lit ''aws:kms'') # rest) \<longrightarrow>
         filter (\<lambda>i. name i = b) issues = [])
    \<and> (get_bucket_encryption env b = Inr (Some algorithm # rest) \<and> algorithm \<noteq> lit ''aws:kms'' \<longrightarrow>
         filter (\<lambda>i. name i = b) issues =
           [\<lparr>name = b,
             reason = lit ''is not encrypted with a KMS key (uses default '' @ algorithm
                        @ lit '' encryption).''\<rparr>])
    \<and> (get_bucket_encryption env b =
          Inl (ClientError (lit ''ServerSideEncryptionConfigurationNotFoundError'') m) \<longrightarrow>
         filter (\<lambda>i. name i = b) issues =
           [\<lparr>name = b, reason = lit ''has no encryption configuration at all.''\<rparr>])"
    if "check_s3_encryption env log = (Inr issues, log') \<and> list_buckets env = Inr buckets
      \<and> distinct buckets \<and> b \<in> set buckets"
    using that buckets kms other none by presburger
  have tpart: "(describe_table env t = Inr (Some d) \<and> map_of d (lit ''Status'') = Some (lit ''ENABLED'') \<longrightarrow>
         filter (\<lambda>x. x = t) unencrypted = [])
    \<and> (describe_table env t = Inr None
         \<or> (describe_table env t = Inr (Some d)
             \<and> map_of d (lit ''Status'') \<noteq> Some (lit ''ENABLED'')) \<longrightarrow>
         filter (\<lambda>x. x = t) unencrypted = [t])"
    if "check_dynamodb_encryption env tlog = (Inr unencrypted, tlog') \<and> list_tables env = Inr tables
      \<and> distinct tables \<and> t \<in> set tables"
    using that tables enabled flagged by presburger
  show ?thesis
    using bruns truns bpart tpart by blast
qed

lemma example_monitor_env_buckets:
  "check_s3_encryption example_monitor_env [] =
     (Inr [\<lparr>name = lit ''data'',
            reason = lit ''is not encrypted with a KMS key (uses default AES256 encryption).''\<rparr>],
      [])"
  by (simp add: check_s3_encryption_def example_monitor_env_def lit_def)

lemma example_monitor_env_tables:
  "check_dynamodb_encryption example_monitor_env [] = (Inr [lit ''metadata''], [])"
  by (simp add: check_dynamodb_encryption_def example_monitor_env_def)

theorem scanner_classification_witness:
  "\<not> isl (fst (check_s3_encryption example_monitor_env []))
   \<and> filter (\<lambda>i. name i = lit ''data'')
        (projr (fst (check_s3_encryption example_monitor_env []))) =
       [\<lparr>name = lit ''data'',
         reason = lit ''is not encrypted with a KMS key (uses default AES256 encryption).''\<rparr>]
   \<and> filter (\<lambda>i. name i = lit ''logs'')
        (projr (fst (check_s3_encryption example_monitor_env []))) = []
   \<and> \<not> isl (fst (check_dynamodb_encryption example_monitor_env []))
   \<and> filter (\<lambda>x. x = lit ''metadata'')
        (projr (fst (check_dynamodb_encryption example_monitor_env []))) = [lit ''metadata'']"
proof -
  have lb: "list_buckets example_monitor_env = Inr [lit ''logs'', lit ''data'']"
    and lt: "list_tables example_monitor_env = Inr [lit ''metadata'']"
    by (simp_all add: example_monitor_env_def)
  have db: "distinct [lit ''logs'', lit ''data'']"
    and mb: "lit ''logs'' \<in> set [lit ''logs'', lit ''data'']"
      "lit ''data'' \<in> set [lit ''logs'', lit ''data'']"
    by (simp_all add: lit_def)
  have gl: "get_bucket_encryption example_monitor_env (lit ''logs'') =
              Inr (Some (lit ''aws:kms'') # [])"
    and gd: "get_bucket_encryption example_monitor_env (lit ''data'') =
              Inr (Some (lit ''AES256'') # [])"
    and alg: "lit ''AES256'' \<noteq> lit ''aws:kms''"
    by (simp_all add: example_monitor_env_def lit_def)
  have allb: "\<forall>x \<in> set [lit ''logs'', lit ''data''].
      (\<exists>a r. get_bucket_encryption example_monitor_env x = Inr (Some a # r))
      \<or> (\<exists>c t. get_bucket_encryption example_monitor_env x = Inl (ClientError c t))"
    using gl gd by simp
  have dt: "describe_table example_monitor_env (lit ''metadata'') = Inr None"
    by (simp add: example_monitor_env_def)
  have allt: "\<forall>x \<in> set [lit ''metadata''].
      (\<exists>d. describe_table example_monitor_env x = Inr d)
      \<or> (\<exists>c t. describe_table example_monitor_env x = Inl (ClientError c t))"
    using dt by simp
  note runs = scanner_classification [of example_monitor_env "[lit ''logs'', lit ''data'']" "[]"
      _ _ _ _ _ _ "[lit ''metadata'']" "[]"]
  have rb: "\<not> isl (fst (check_s3_encryption example_monitor_env []))"
    using runs lb allb by blast
  have rt: "\<not> isl (fst (check_dynamodb_encryption example_monitor_env []))"
    using runs lt allt by blast
  obtain issues log' where sb: "check_s3_encryption example_monitor_env [] = (Inr issues, log')"
    using rb by (cases "check_s3_encryption example_monitor_env []";
        cases "fst (check_s3_encryption example_monitor_env [])") auto
  obtain unencrypted tlog' where
    st: "check_dynamodb_encryption example_monitor_env [] = (Inr unencrypted, tlog')"
    using rt by (cases "check_dynamodb_encryption example_monitor_env []";
        cases "fst (check_dynamodb_encryption example_monitor_env [])") auto
  have data: "filter (\<lambda>i. name i = lit ''data'') issues =
       [\<lparr>name = lit ''data'',
         reason = lit ''is not encrypted with a KMS key (uses default '' @ lit ''AES256''
                    @ lit '' encryption).''\<rparr>]"
    using scanner_classification [of example_monitor_env "[lit ''logs'', lit ''data'']" "[]"
        issues log' "lit ''data''" "[]" "lit ''AES256''" _ "[lit ''metadata'']" "[]"
        unencrypted tlog' "lit ''metadata''"]
      sb lb db mb gd alg by blast
  have logs: "filter (\<lambda>i. name i = lit ''logs'') issues = []"
    using scanner_classification [of example_monitor_env "[lit ''logs'', lit ''data'']" "[]"
        issues log' "lit ''logs''" "[]" "lit ''AES256''" _ "[lit ''metadata'']" "[]"
        unencrypted tlog' "lit ''metadata''"]
      sb lb db mb gl by blast
  have meta: "filter (\<lambda>x. x = lit ''metadata'') unencrypted = [lit ''metadata'']"
    using scanner_classification [of example_monitor_env "[lit ''logs'', lit ''data'']" "[]"
        issues log' "lit ''logs''" "[]" "lit ''AES256''" _ "[lit ''metadata'']" "[]"
        unencrypted tlog' "lit ''metadata''"]
      st lt dt by simp
  have reason: "lit ''is not encrypted with a KMS key (uses default '' @ lit ''AES256''
                    @ lit '' encryption).'' =
                lit ''is not encrypted with a KMS key (uses default AES256 encryption).''"
    by (simp add: lit_def)
  show ?thesis
    using rb rt data logs meta by (simp add: sb st reason)
qed

lemma subjects_differ: "failed_subject \<noteq> alert_subject"
  by (simp add: failed_subject_def alert_subject_def lit_def)

text \<open>What the handler does with an exception of its \<open>try\<close> block.\<close>

lemma monitor_handler_failed:
  assumes "handler_try env = (Inl e, st)"
  shows "fst (monitor_handler env) = Inl e"
    and "sns_calls (snd (monitor_handler env)) =
           sns_calls st @ (case SNS_TOPIC_ARN env of
                             None \<Rightarrow> []
                           | Some topic \<Rightarrow> [(topic, failed_subject, failed_message e)])"
    and "error_log (snd (monitor_handler env)) =
           error_log st @ [lit ''Security scan failed: '' @ str_exn e]"
  using assms
  by (simp_all add: monitor_handler_def Let_def split: option.splits sum.splits)

lemma handler_try_no_buckets:
  assumes "list_buckets env = Inl e"
  shows "handler_try env =
           (Inl e, \<lparr>error_log = [reraise_logged (lit ''Error listing S3 buckets: '')
                                   (lit ''Unexpected error checking S3 encryption: '') e],
                    sns_calls = []\<rparr>)"
  using assms by (simp add: handler_try_def check_s3_encryption_def)

lemma handler_try_no_tables:
  assumes "check_s3_encryption env [] = (Inr s3_results, log1)"
    and "list_tables env = Inl e"
  shows "handler_try env =
           (Inl e, \<lparr>error_log = log1 @ [reraise_logged (lit ''Error listing DynamoDB tables: '')
                                   (lit ''Unexpected error checking DynamoDB encryption: '') e],
                    sns_calls = []\<rparr>)"
  using assms by (simp add: handler_try_def check_dynamodb_encryption_def)

text \<open>
  C9. When the enumeration of the buckets fails, or the bucket scan succeeds and the
  enumeration of the tables fails, the handler raises that same exception, and (with
  the topic configured) it has called the channel exactly once, with the subject
  \<open>Security Scan FAILED\<close> and the text of the exception. Whatever the channel answers
  to that call, an exception or a message id, the handler's outcome is the same. More
  generally, every exception of the \<open>try\<close> block is the one the handler raises.
\<close>

theorem scan_failure_propagates:
  "(list_buckets env = Inl e
      \<or> (check_s3_encryption env [] = (Inr s3_results, log1) \<and> list_tables env = Inl e) \<longrightarrow>
      fst (monitor_handler env) = Inl e
    \<and> sns_calls (snd (monitor_handler env)) =
        (case SNS_TOPIC_ARN env of
           None \<Rightarrow> []
         | Some topic \<Rightarrow> [(topic, failed_subject, failed_message e)])
    \<and> monitor_handler (env\<lparr>publish := p\<rparr>) = monitor_handler env)
   \<and> (handler_try env = (Inl e, st) \<longrightarrow> fst (monitor_handler env) = Inl e)"
proof -
  have general: "fst (monitor_handler env) = Inl e" if "handler_try env = (Inl e, st)"
    using that by (rule monitor_handler_failed(1))
  have enum: "fst (monitor_handler env) = Inl e
    \<and> sns_calls (snd (monitor_handler env)) =
        (case SNS_TOPIC_ARN env of
           None \<Rightarrow> []
         | Some topic \<Rightarrow> [(topic, failed_subject, failed_message e)])
    \<and> monitor_handler (env\<lparr>publish := p\<rparr>) = monitor_handler env"
    if h: "list_buckets env = Inl e
      \<or> (check_s3_encryption env [] = (Inr s3_results, log1) \<and> list_tables env = Inl e)"
  proof -
    from h obtain lg where t: "handler_try env = (Inl e, \<lparr>error_log = lg, sns_calls = []\<rparr>)"
      using handler_try_no_buckets [of env e] handler_try_no_tables [of env s3_results log1 e]
      by blast
    have cb: "check_buckets (env\<lparr>publish := p\<rparr>) bs acc l = check_buckets env bs acc l"
      for bs acc l
      by (rule check_buckets_cong) simp
    have s3: "check_s3_encryption (env\<lparr>publish := p\<rparr>) [] = check_s3_encryption env []"
      by (simp add: check_s3_encryption_def cb cong: sum.case_cong)
    have "handler_try (env\<lparr>publish := p\<rparr>) = handler_try env"
      using h
    proof
      assume l: "list_buckets env = Inl e"
      then have "list_buckets (env\<lparr>publish := p\<rparr>) = Inl e" by simp
      then show ?thesis
        using handler_try_no_buckets [of "env\<lparr>publish := p\<rparr>" e]
          handler_try_no_buckets [OF l] by simp
    next
      assume "check_s3_encryption env [] = (Inr s3_results, log1) \<and> list_tables env = Inl e"
      then have c: "check_s3_encryption env [] = (Inr s3_results, log1)"
        and l: "list_tables env = Inl e" by auto
      have c': "check_s3_encryption (env\<lparr>publish := p\<rparr>) [] = (Inr s3_results, log1)"
        using c s3 by simp
      have l': "list_tables (env\<lparr>publish := p\<rparr>) = Inl e" using l by simp
      show ?thesis
        using handler_try_no_tables [OF c' l'] handler_try_no_tables [OF c l] by simp
    qed
    then have "handler_try (env\<lparr>publish := p\<rparr>) = (Inl e, \<lparr>error_log = lg, sns_calls = []\<rparr>)"
      using t by simp
    then have same: "monitor_handler (env\<lparr>publish := p\<rparr>) = monitor_handler env"
      using t by (simp add: monitor_handler_def Let_def split: option.splits sum.splits)
    show ?thesis
      using monitor_handler_failed(1,2) [OF t] same by simp
  qed
  show ?thesis using general enum by blast
qed

theorem scan_failure_propagates_witness:
  "fst (monitor_handler unreachable_monitor_env) =
     Inl (ClientError (lit ''AccessDenied'') (lit ''Access Denied''))
   \<and> sns_calls (snd (monitor_handler unreachable_monitor_env)) =
       [(lit ''arn:aws:sns:eu-central-1:123456789012:test'', failed_subject,
         failed_message (ClientError (lit ''AccessDenied'') (lit ''Access Denied'')))]
   \<and> publish unreachable_monitor_env 0 (lit ''arn:aws:sns:eu-central-1:123456789012:test'')
        failed_subject
        (failed_message (ClientError (lit ''AccessDenied'') (lit ''Access Denied''))) =
       Inl (BotoCoreError (lit ''Connect timeout on endpoint URL''))"
proof -
  have l: "list_buckets unreachable_monitor_env =
             Inl (ClientError (lit ''AccessDenied'') (lit ''Access Denied''))"
    by (simp add: unreachable_monitor_env_def)
  have t: "SNS_TOPIC_ARN unreachable_monitor_env =
             Some (lit ''arn:aws:sns:eu-central-1:123456789012:test'')"
    by (simp add: unreachable_monitor_env_def example_monitor_env_def)
  have p: "publish unreachable_monitor_env n tp sj ms =
             Inl (BotoCoreError (lit ''Connect timeout on endpoint URL''))" for n tp sj ms
    by (simp add: unreachable_monitor_env_def)
  show ?thesis
    using scan_failure_propagates [of unreachable_monitor_env
        "ClientError (lit ''AccessDenied'') (lit ''Access Denied'')"] l t p
    by simp
qed

lemma handler_try_scanned:
  assumes "check_s3_encryption env [] = (Inr s3_results, log1)"
    and "check_dynamodb_encryption env log1 = (Inr dynamo_results, log2)"
  shows "handler_try env =
     (if format_issues s3_results dynamo_results \<noteq> [] then
        (case send_alert env (format_issues s3_results dynamo_results)
                \<lparr>error_log = log2, sns_calls = []\<rparr> of
           (Inl e, st') \<Rightarrow> (Inl e, st')
         | (Inr u, st') \<Rightarrow>
             (Inr \<lparr>m_statusCode = 200,
                   issues_found = length (format_issues s3_results dynamo_results),
                   m_message = lit ''Security scan completed'',
                   m_issues = format_issues s3_results dynamo_results\<rparr>, st'))
      else
        (Inr \<lparr>m_statusCode = 200,
              issues_found = length (format_issues s3_results dynamo_results),
              m_message = lit ''Security scan completed'',
              m_issues = format_issues s3_results dynamo_results\<rparr>,
         \<lparr>error_log = log2, sns_calls = []\<rparr>))"
  using assms by (simp add: handler_try_def Let_def)

text \<open>
  C7. After both scans have run to their end: with no issue the handler returns status
  200 and has not called the channel. With at least one issue and the topic configured,
  the channel is called exactly once with the alert subject, whatever it answers; the
  message is the fixed introduction, then one line per issue (a bullet, the resource
  and its reason), the bucket issues before the tables, then the fixed footer; and when
  the channel accepts the message that call is the only one and the handler returns
  status 200 with the issues. The bucket issues follow the order in which the buckets
  were listed, and the tables the order in which the tables were listed.
\<close>

theorem alert_published_once:
  assumes "check_s3_encryption env [] = (Inr s3_results, log1)"
    and "check_dynamodb_encryption env log1 = (Inr dynamo_results, log2)"
  shows "(format_issues s3_results dynamo_results = [] \<longrightarrow>
            monitor_handler env =
              (Inr \<lparr>m_statusCode = 200, issues_found = 0,
                    m_message = lit ''Security scan completed'', m_issues = []\<rparr>,
               \<lparr>error_log = log2, sns_calls = []\<rparr>))
       \<and> (format_issues s3_results dynamo_results \<noteq> [] \<and> SNS_TOPIC_ARN env = Some topic \<longrightarrow>
            filter (\<lambda>c. fst (snd c) = alert_subject) (sns_calls (snd (monitor_handler env))) =
              [(topic, alert_subject, full_message (format_issues s3_results dynamo_results))]
          \<and> (publish env 0 topic alert_subject
                (full_message (format_issues s3_results dynamo_results)) = Inr mid \<longrightarrow>
              monitor_handler env =
                (Inr \<lparr>m_statusCode = 200,
                      issues_found = length (format_issues s3_results dynamo_results),
                      m_message = lit ''Security scan completed'',
                      m_issues = format_issues s3_results dynamo_results\<rparr>,
                 \<lparr>error_log = log2,
                  sns_calls = [(topic, alert_subject,
                                full_message (format_issues s3_results dynamo_results))]\<rparr>)))
       \<and> full_message (format_issues s3_results dynamo_results) =
            message_intro
            @ join [10]
                (map (\<lambda>issue. [8226, 32] @ lit ''S3 Bucket '' @ [39] @ name issue @ [39]
                                @ lit '' '' @ reason issue) s3_results
                 @ map (\<lambda>table_name. [8226, 32] @ lit ''DynamoDB Table '' @ [39] @ table_name
                                @ [39] @ lit '' is not encrypted.'') dynamo_results)
            @ message_footer
       \<and> (list_buckets env = Inr buckets \<longrightarrow> subseq (map name s3_results) buckets)
       \<and> (list_tables env = Inr tables \<longrightarrow> subseq dynamo_results tables)"
proof -
  let ?issues = "format_issues s3_results dynamo_results"
  let ?msg = "full_message ?issues"
  note t = handler_try_scanned [OF assms]
  have none: "monitor_handler env =
              (Inr \<lparr>m_statusCode = 200, issues_found = 0,
                    m_message = lit ''Security scan completed'', m_issues = []\<rparr>,
               \<lparr>error_log = log2, sns_calls = []\<rparr>)" if "?issues = []"
    using that t by (simp add: monitor_handler_def)
  have once: "filter (\<lambda>c. fst (snd c) = alert_subject) (sns_calls (snd (monitor_handler env))) =
              [(topic, alert_subject, ?msg)]"
    if ne: "?issues \<noteq> []" and tp: "SNS_TOPIC_ARN env = Some topic"
  proof (cases "publish env 0 topic alert_subject ?msg")
    case (Inl e)
    then have "handler_try env =
        (Inl e, \<lparr>error_log = log2, sns_calls = [(topic, alert_subject, ?msg)]\<rparr>)"
      using t ne tp by (simp add: send_alert_def)
    from monitor_handler_failed(2) [OF this] show ?thesis
      using tp subjects_differ by simp
  next
    case (Inr mid)
    then have "handler_try env =
        (Inr \<lparr>m_statusCode = 200, issues_found = length ?issues,
              m_message = lit ''Security scan completed'', m_issues = ?issues\<rparr>,
         \<lparr>error_log = log2, sns_calls = [(topic, alert_subject, ?msg)]\<rparr>)"
      using t ne tp by (simp add: send_alert_def)
    then show ?thesis by (simp add: monitor_handler_def)
  qed
  have delivered: "monitor_handler env =
                (Inr \<lparr>m_statusCode = 200, issues_found = length ?issues,
                      m_message = lit ''Security scan completed'', m_issues = ?issues\<rparr>,
                 \<lparr>error_log = log2, sns_calls = [(topic, alert_subject, ?msg)]\<rparr>)"
    if ne: "?issues \<noteq> []" and tp: "SNS_TOPIC_ARN env = Some topic"
      and ok: "publish env 0 topic alert_subject ?msg = Inr mid"
  proof -
    have "handler_try env =
        (Inr \<lparr>m_statusCode = 200, issues_found = length ?issues,
              m_message = lit ''Security scan completed'', m_issues = ?issues\<rparr>,
         \<lparr>error_log = log2, sns_calls = [(topic, alert_subject, ?msg)]\<rparr>)"
      using t ne tp ok by (simp add: send_alert_def)
    then show ?thesis by (simp add: monitor_handler_def)
  qed
  have msg_eq: "?msg =
            message_intro
            @ join [10]
                (map (\<lambda>issue. [8226, 32] @ lit ''S3 Bucket '' @ [39] @ name issue @ [39]
                                @ lit '' '' @ reason issue) s3_results
                 @ map (\<lambda>table_name. [8226, 32] @ lit ''DynamoDB Table '' @ [39] @ table_name
                                @ [39] @ lit '' is not encrypted.'') dynamo_results)
            @ message_footer"
    by (simp add: full_message_def format_issues_def comp_def)
  have border: "subseq (map name s3_results) buckets" if "list_buckets env = Inr buckets"
    using check_s3_encryption_Inr [OF assms(1) that]
    by (simp add: names_concat_bucket_issues)
  have torder: "subseq dynamo_results tables" if "list_tables env = Inr tables"
    using check_dynamodb_encryption_Inr [OF assms(2) that] by simp
  show ?thesis
    using none once delivered msg_eq border torder by blast
qed

lemma example_format_issues:
  "format_issues
     [\<lparr>name = lit ''data'',
       reason = lit ''is not encrypted with a KMS key (uses default AES256 encryption).''\<rparr>]
     [lit ''metadata''] =
   [lit ''S3 Bucket 'data' is not encrypted with a KMS key (uses default AES256 encryption).'',
    lit ''DynamoDB Table 'metadata' is not encrypted.'']"
  by (simp add: format_issues_def lit_def)

theorem alert_published_once_witness:
  "monitor_handler example_monitor_env =
     (Inr \<lparr>m_statusCode = 200, issues_found = 2,
           m_message = lit ''Security scan completed'',
           m_issues =
             [lit ''S3 Bucket 'data' is not encrypted with a KMS key (uses default AES256 encryption).'',
              lit ''DynamoDB Table 'metadata' is not encrypted.'']\<rparr>,
      \<lparr>error_log = [],
       sns_calls =
         [(lit ''arn:aws:sns:eu-central-1:123456789012:test'', alert_subject,
           full_message
             [lit ''S3 Bucket 'data' is not encrypted with a KMS key (uses default AES256 encryption).'',
              lit ''DynamoDB Table 'metadata' is not encrypted.''])]\<rparr>)
   \<and> subseq [lit ''data''] [lit ''logs'', lit ''data'']"
proof -
  have env: "SNS_TOPIC_ARN example_monitor_env =
               Some (lit ''arn:aws:sns:eu-central-1:123456789012:test'')"
    "\<And>n tp sj ms. publish example_monitor_env n tp sj ms = Inr (lit ''12345'')"
    "list_buckets example_monitor_env = Inr [lit ''logs'', lit ''data'']"
    by (simp_all add: example_monitor_env_def)
  from alert_published_once [OF example_monitor_env_buckets example_monitor_env_tables,
      of "lit ''arn:aws:sns:eu-central-1:123456789012:test''" "lit ''12345''"
         "[lit ''logs'', lit ''data'']"]
  show ?thesis
    by (simp add: env example_format_issues)
qed

text \<open>The results of the two scans do not depend on the log they are given.\<close>

lemma check_s3_encryption_fst_log:
  "fst (check_s3_encryption env log) = fst (check_s3_encryption env log')"
proof (cases "list_buckets env")
  case (Inl e)
  then show ?thesis by (simp add: check_s3_encryption_def)
next
  case (Inr buckets)
  then show ?thesis
    using check_s3_encryption_loop [OF Inr, of log] check_s3_encryption_loop [OF Inr, of log']
      check_buckets_fst_log [of env buckets "[]" log]
      check_buckets_fst_log [of env buckets "[]" log']
    by simp
qed

lemma check_dynamodb_encryption_fst_log:
  "fst (check_dynamodb_encryption env log) = fst (check_dynamodb_encryption env log')"
proof (cases "list_tables env")
  case (Inl e)
  then show ?thesis by (simp add: check_dynamodb_encryption_def)
next
  case (Inr tables)
  then show ?thesis
    using check_dynamodb_encryption_loop [OF Inr, of log]
      check_dynamodb_encryption_loop [OF Inr, of log']
      check_tables_fst_log [of env tables "[]" log]
      check_tables_fst_log [of env tables "[]" log']
    by simp
qed

text \<open>
  The handler's outcome and its calls of the channel are determined by the results of
  the two scans, the topic and the channel.
\<close>

lemma monitor_handler_depends:
  assumes s3: "fst (check_s3_encryption env' []) = fst (check_s3_encryption env [])"
    and ddb: "fst (check_dynamodb_encryption env' []) = fst (check_dynamodb_encryption env [])"
    and tp: "SNS_TOPIC_ARN env' = SNS_TOPIC_ARN env"
    and pb: "publish env' = publish env"
  shows "fst (monitor_handler env') = fst (monitor_handler env)
       \<and> sns_calls (snd (monitor_handler env')) = sns_calls (snd (monitor_handler env))"
proof -
  obtain r1 l1 where a: "check_s3_encryption env [] = (r1, l1)"
    by (cases "check_s3_encryption env []")
  obtain l1' where a': "check_s3_encryption env' [] = (r1, l1')"
    using s3 a by (cases "check_s3_encryption env' []") auto
  obtain r2 l2 where b: "check_dynamodb_encryption env l1 = (r2, l2)"
    by (cases "check_dynamodb_encryption env l1")
  have "fst (check_dynamodb_encryption env' l1') = fst (check_dynamodb_encryption env l1)"
    using ddb check_dynamodb_encryption_fst_log [of env' l1' "[]"]
      check_dynamodb_encryption_fst_log [of env l1 "[]"] by simp
  then obtain l2' where b': "check_dynamodb_encryption env' l1' = (r2, l2')"
    using b by (cases "check_dynamodb_encryption env' l1'") auto
  show ?thesis
  proof (cases r1)
    case (Inl e)
    then show ?thesis
      using a a' by (simp add: monitor_handler_def handler_try_def tp pb Let_def
          split: option.splits sum.splits)
  next
    case s3r: (Inr s3_results)
    show ?thesis
    proof (cases r2)
      case (Inl e)
      then show ?thesis
        using a a' b b' s3r by (simp add: monitor_handler_def handler_try_def tp pb Let_def
            split: option.splits sum.splits)
    next
      case (Inr dynamo_results)
      then show ?thesis
        using a a' b b' s3r
        by (simp add: monitor_handler_def handler_try_def send_alert_def tp pb Let_def
            split: option.splits sum.splits)
    qed
  qed
qed

text \<open>
  C4, as the code has it. A \<open>ClientError\<close> raised while one bucket is inspected, with
  another code than the no-configuration one, or a \<open>ClientError\<close> raised while one
  table is described, is logged and that resource is skipped: the scan returns what it
  returns when the resource is not listed at all, a scan that runs to its end has the
  line \<open>Error checking bucket ...\<close> or \<open>Error checking table ...\<close> in its log, and
  the handler returns the same result and makes the same calls of the channel as
  without that resource.
\<close>

theorem scanner_isolates_client_errors:
  "(list_buckets env = Inr (pre @ b # post)
      \<and> get_bucket_encryption env b = Inl (ClientError code m)
      \<and> code \<noteq> lit ''ServerSideEncryptionConfigurationNotFoundError'' \<longrightarrow>
      fst (check_s3_encryption env log) =
        fst (check_s3_encryption (env\<lparr>list_buckets := Inr (pre @ post)\<rparr>) log)
    \<and> (\<not> isl (fst (check_s3_encryption env log)) \<longrightarrow>
         lit ''Error checking bucket '' @ [39] @ b @ [39] @ lit '': '' @ m
           \<in> set (snd (check_s3_encryption env log)))
    \<and> fst (monitor_handler env) =
        fst (monitor_handler (env\<lparr>list_buckets := Inr (pre @ post)\<rparr>))
    \<and> sns_calls (snd (monitor_handler env)) =
        sns_calls (snd (monitor_handler (env\<lparr>list_buckets := Inr (pre @ post)\<rparr>))))
   \<and> (list_tables env = Inr (tpre @ t # tpost)
      \<and> describe_table env t = Inl (ClientError tcode tm) \<longrightarrow>
      fst (check_dynamodb_encryption env tlog) =
        fst (check_dynamodb_encryption (env\<lparr>list_tables := Inr (tpre @ tpost)\<rparr>) tlog)
    \<and> (\<not> isl (fst (check_dynamodb_encryption env tlog)) \<longrightarrow>
         lit ''Error checking table '' @ [39] @ t @ [39] @ lit '': '' @ tm
           \<in> set (snd (check_dynamodb_encryption env tlog)))
    \<and> fst (monitor_handler env) =
        fst (monitor_handler (env\<lparr>list_tables := Inr (tpre @ tpost)\<rparr>))
    \<and> sns_calls (snd (monitor_handler env)) =
        sns_calls (snd (monitor_handler (env\<lparr>list_tables := Inr (tpre @ tpost)\<rparr>))))"
proof -
  have buckets: "fst (check_s3_encryption env log) =
        fst (check_s3_encryption (env\<lparr>list_buckets := Inr (pre @ post)\<rparr>) log)
    \<and> (\<not> isl (fst (check_s3_encryption env log)) \<longrightarrow>
         lit ''Error checking bucket '' @ [39] @ b @ [39] @ lit '': '' @ m
           \<in> set (snd (check_s3_encryption env log)))
    \<and> fst (monitor_handler env) =
        fst (monitor_handler (env\<lparr>list_buckets := Inr (pre @ post)\<rparr>))
    \<and> sns_calls (snd (monitor_handler env)) =
        sns_calls (snd (monitor_handler (env\<lparr>list_buckets := Inr (pre @ post)\<rparr>)))"
    if l: "list_buckets env = Inr (pre @ b # post)"
      and g: "get_bucket_encryption env b = Inl (ClientError code m)"
      and c: "code \<noteq> lit ''ServerSideEncryptionConfigurationNotFoundError''"
  proof -
    let ?env' = "env\<lparr>list_buckets := Inr (pre @ post)\<rparr>"
    have l': "list_buckets ?env' = Inr (pre @ post)" by simp
    have cb: "check_buckets ?env' bs acc lg = check_buckets env bs acc lg" for bs acc lg
      by (rule check_buckets_cong) simp
    have ct: "check_tables ?env' ts acc lg = check_tables env ts acc lg" for ts acc lg
      by (rule check_tables_cong) simp
    have res: "fst (check_s3_encryption env lg) = fst (check_s3_encryption ?env' lg)" for lg
      using check_s3_encryption_loop [OF l, of lg] check_s3_encryption_loop [OF l', of lg]
        check_buckets_skip [OF g c, of pre post "[]" lg]
      by (simp add: cb)
    have logged: "lit ''Error checking bucket '' @ [39] @ b @ [39] @ lit '': '' @ m
           \<in> set (snd (check_s3_encryption env log))"
      if "\<not> isl (fst (check_s3_encryption env log))"
      using that check_s3_encryption_loop [OF l, of log]
        check_buckets_skip [OF g c, of pre post "[]" log]
      by auto
    have ddb: "check_dynamodb_encryption ?env' [] = check_dynamodb_encryption env []"
      by (simp add: check_dynamodb_encryption_def ct cong: sum.case_cong)
    have "fst (monitor_handler ?env') = fst (monitor_handler env)
       \<and> sns_calls (snd (monitor_handler ?env')) = sns_calls (snd (monitor_handler env))"
      by (rule monitor_handler_depends) (simp_all add: res [of "[]"] ddb)
    then show ?thesis using res [of log] logged by simp
  qed
  have tables: "fst (check_dynamodb_encryption env tlog) =
        fst (check_dynamodb_encryption (env\<lparr>list_tables := Inr (tpre @ tpost)\<rparr>) tlog)
    \<and> (\<not> isl (fst (check_dynamodb_encryption env tlog)) \<longrightarrow>
         lit ''Error checking table '' @ [39] @ t @ [39] @ lit '': '' @ tm
           \<in> set (snd (check_dynamodb_encryption env tlog)))
    \<and> fst (monitor_handler env) =
        fst (monitor_handler (env\<lparr>list_tables := Inr (tpre @ tpost)\<rparr>))
    \<and> sns_calls (snd (monitor_handler env)) =
        sns_calls (snd (monitor_handler (env\<lparr>list_tables := Inr (tpre @ tpost)\<rparr>)))"
    if l: "list_tables env = Inr (tpre @ t # tpost)"
      and g: "describe_table env t = Inl (ClientError tcode tm)"
  proof -
    let ?env' = "env\<lparr>list_tables := Inr (tpre @ tpost)\<rparr>"
    have l': "list_tables ?env' = Inr (tpre @ tpost)" by simp
    have cb: "check_buckets ?env' bs acc lg = check_buckets env bs acc lg" for bs acc lg
      by (rule check_buckets_cong) simp
    have ct: "check_tables ?env' ts acc lg = check_tables env ts acc lg" for ts acc lg
      by (rule check_tables_cong) simp
    have res: "fst (check_dynamodb_encryption env lg) = fst (check_dynamodb_encryption ?env' lg)"
      for lg
      using check_dynamodb_encryption_loop [OF l, of lg]
        check_dynamodb_encryption_loop [OF l', of lg]
        check_tables_skip [OF g, of tpre tpost "[]" lg]
      by (simp add: ct)
    have logged: "lit ''Error checking table '' @ [39] @ t @ [39] @ lit '': '' @ tm
           \<in> set (snd (check_dynamodb_encryption env tlog))"
      if "\<not> isl (fst (check_dynamodb_encryption env tlog))"
      using that check_dynamodb_encryption_loop [OF l, of tlog]
        check_tables_skip [OF g, of tpre tpost "[]" tlog]
      by auto
    have s3: "check_s3_encryption ?env' [] = check_s3_encryption env []"
      by (simp add: check_s3_encryption_def cb cong: sum.case_cong)
    have "fst (monitor_handler ?env') = fst (monitor_handler env)
       \<and> sns_calls (snd (monitor_handler ?env')) = sns_calls (snd (monitor_handler env))"
      by (rule monitor_handler_depends) (simp_all add: res [of "[]"] s3)
    then show ?thesis using res [of tlog] logged by simp
  qed
  show ?thesis using buckets tables by blast
qed

lemma denied_monitor_env_buckets:
  "check_s3_encryption denied_monitor_env [] =
     (Inr [\<lparr>name = lit ''data'',
            reason = lit ''is not encrypted with a KMS key (uses default AES256 encryption).''\<rparr>],
      [lit ''Error checking bucket 'logs': Access Denied''])"
  by (simp add: check_s3_encryption_def denied_monitor_env_def example_monitor_env_def lit_def)

theorem scanner_isolates_client_errors_witness:
  "fst (check_s3_encryption denied_monitor_env []) =
     fst (check_s3_encryption (denied_monitor_env\<lparr>list_buckets := Inr ([] @ [lit ''data''])\<rparr>) [])
   \<and> lit ''Error checking bucket '' @ [39] @ lit ''logs'' @ [39] @ lit '': ''
        @ lit ''Access Denied'' \<in> set (snd (check_s3_encryption denied_monitor_env []))
   \<and> fst (monitor_handler denied_monitor_env) =
       fst (monitor_handler (denied_monitor_env\<lparr>list_buckets := Inr ([] @ [lit ''data''])\<rparr>))"
proof -
  have l: "list_buckets denied_monitor_env = Inr ([] @ lit ''logs'' # [lit ''data''])"
    by (simp add: denied_monitor_env_def example_monitor_env_def)
  have g: "get_bucket_encryption denied_monitor_env (lit ''logs'') =
             Inl (ClientError (lit ''AccessDenied'') (lit ''Access Denied''))"
    by (simp add: denied_monitor_env_def lit_def)
  have c: "lit ''AccessDenied'' \<noteq> lit ''ServerSideEncryptionConfigurationNotFoundError''"
    by (simp add: lit_def)
  have r: "\<not> isl (fst (check_s3_encryption denied_monitor_env []))"
    by (simp add: denied_monitor_env_buckets)
  from scanner_isolates_client_errors [of denied_monitor_env "[]" "lit ''logs''"
      "[lit ''data'']" "lit ''AccessDenied''" "lit ''Access Denied''" "[]"]
  show ?thesis using l g c r by simp
qed

text \<open>
  C4 as stated fails: a failure of the inspection that is not a \<open>ClientError\<close>, here a
  connection timeout while the bucket \<open>logs\<close> is inspected, ends the scan. The handler
  raises it, although the scan of the remaining bucket alone reports an issue.
\<close>

theorem scanner_aborts_counterexample:
  "fst (check_s3_encryption timeout_monitor_env []) =
     Inl (BotoCoreError (lit ''Connect timeout on endpoint URL''))
   \<and> fst (monitor_handler timeout_monitor_env) =
     Inl (BotoCoreError (lit ''Connect timeout on endpoint URL''))
   \<and> fst (check_s3_encryption (timeout_monitor_env\<lparr>list_buckets := Inr [lit ''data'']\<rparr>) []) =
     Inr [\<lparr>name = lit ''data'',
           reason = lit ''is not encrypted with a KMS key (uses default AES256 encryption).''\<rparr>]"
proof -
  have a: "check_s3_encryption timeout_monitor_env [] =
     (Inl (BotoCoreError (lit ''Connect timeout on endpoint URL'')),
      [lit ''Unexpected error checking S3 encryption: Connect timeout on endpoint URL''])"
    by (simp add: check_s3_encryption_def timeout_monitor_env_def example_monitor_env_def
        reraise_logged_def lit_def)
  have b: "fst (monitor_handler timeout_monitor_env) =
     Inl (BotoCoreError (lit ''Connect timeout on endpoint URL''))"
    by (rule monitor_handler_failed(1)) (simp add: handler_try_def a)
  have c: "fst (check_s3_encryption (timeout_monitor_env\<lparr>list_buckets := Inr [lit ''data'']\<rparr>) []) =
     Inr [\<lparr>name = lit ''data'',
           reason = lit ''is not encrypted with a KMS key (uses default AES256 encryption).''\<rparr>]"
    by (simp add: check_s3_encryption_def timeout_monitor_env_def example_monitor_env_def lit_def)
  show ?thesis using a b c by simp
qed

end
